theory Spec2Isabelle
  imports Complex_Main "HOL-Library.AList" "HOL-Library.List_Lexorder"
begin

section \<open>Data model of the thread tracker (tt.py)\<close>

text \<open>
  Timestamps are the values of \<^verbatim>\<open>time.time()\<close>. They are modelled as rationals: the
  order and the subtraction of the 24-hour threshold are exact, the rounding of Python's
  floats is not modelled.
\<close>

type_synonym timestamp = rat

text \<open>
  A character of a Python \<^verbatim>\<open>str\<close> is a code point: \<open>L c\<close> is the code point below 256 that
  the character \<open>c\<close> stands for, \<open>Wide n\<close> is the code point \<open>256 + n\<close>. A \<^verbatim>\<open>str\<close> is the
  list of its code points, so \<^const>\<open>length\<close> and \<^const>\<open>take\<close> count what \<^verbatim>\<open>len\<close> and slices
  count; \<open>py\<close> writes a literal.
\<close>

datatype pychar = L char | Wide nat

type_synonym pystr = "pychar list"

abbreviation py :: "string \<Rightarrow> pystr" where
  "py s \<equiv> map L s"

fun codepoint :: "pychar \<Rightarrow> nat" where
  "codepoint (L c) = of_char c"
| "codepoint (Wide n) = 256 + n"

text \<open>A post of the remote API's JSON document: every key of the dict may be absent.\<close>

record post =
  no :: "int option"
  sub :: "pystr option"
  com :: "pystr option"

text \<open>
  The decoded JSON document of a thread. \<open>other_keys\<close> says whether the dict holds keys
  besides \<^verbatim>\<open>'posts'\<close>: a Python dict is falsy exactly when it is empty.
\<close>

record thread_data =
  posts :: "post list option"
  other_keys :: bool

text \<open>
  One entry of \<^verbatim>\<open>data["threads"]\<close>: the key \<^verbatim>\<open>"board"\<close> is the field \<open>info_board\<close>,
  and so on (the bare names are the parameters of the functions below).
\<close>

record thread_info =
  info_id :: int
  info_board :: pystr
  info_thread_id :: pystr
  info_title :: pystr
  info_last_post_no :: int
  info_last_update :: timestamp
  info_check_interval :: int
  info_added_time :: timestamp

text \<open>
  The tracking document. A Python dict keeps insertion order and has unique keys; it is an
  association list, read with \<^const>\<open>map_of\<close>, written with \<^const>\<open>AList.update\<close> (which
  replaces in place or appends) and \<^const>\<open>AList.delete\<close>.
\<close>

record data =
  threads :: "(pystr \<times> thread_info) list"
  next_id :: int

datatype file_state = Missing | Corrupt | Stored data

datatype py_exception =
    ValueError pystr
  | KeyError
  | IndexError
  | HTTPError int
  | KeyboardInterrupt
  | EOFError
  | OverflowError
  | OSError

section \<open>Pure helpers\<close>

subsection \<open>Regular expressions of the source, specialised\<close>

text \<open>A literal piece of a pattern: consumed at the start of the text, or no match.\<close>

fun strip_literal :: "pystr \<Rightarrow> pystr \<Rightarrow> pystr option" where
  "strip_literal [] s = Some s"
| "strip_literal (c # cs) [] = None"
| "strip_literal (c # cs) (d # ds) = (if c = d then strip_literal cs ds else None)"

text \<open>
  \<^verbatim>\<open>\d\<close> in a pattern for \<^verbatim>\<open>str\<close> (no \<^verbatim>\<open>re.ASCII\<close>) matches the characters that are decimal
  digits in the Unicode database of the interpreter. Below code point 256 these are
  \<^verbatim>\<open>0\<close> to \<^verbatim>\<open>9\<close>; which of the wider code points are digits is the table \<open>wide\<close>, which
  is not part of the program and is a parameter here (\<open>wide n\<close> for the code point
  \<open>256 + n\<close>).
\<close>

definition is_digit :: "(nat \<Rightarrow> bool) \<Rightarrow> pychar \<Rightarrow> bool" where
  "is_digit wide c = (case c of L a \<Rightarrow> a \<in> set ''0123456789'' | Wide n \<Rightarrow> wide n)"

text \<open>
  \<^verbatim>\<open>re.match(r'https://boards\.4chan\.org/([^/]+)/thread/(\d+)', url)\<close>: anchored at the
  start only. \<^verbatim>\<open>[^/]+\<close> is greedy and must be followed by \<^verbatim>\<open>/\<close>, so group 1 is the
  longest run without a slash (a shorter run would be followed by a non-slash); \<^verbatim>\<open>\d+\<close> is
  the longest run of digits, and nothing is required after it.
\<close>

definition parse_thread_url ::
  "(nat \<Rightarrow> bool) \<Rightarrow> pystr \<Rightarrow> py_exception + (pystr \<times> pystr)" where
  "parse_thread_url wide url =
     (case strip_literal (py ''https://boards.4chan.org/'') url of
        None \<Rightarrow> Inl (ValueError ((py ''Invalid 4chan thread URL: '') @ url))
      | Some r1 \<Rightarrow>
          (let group1 = takeWhile (\<lambda>c. c \<noteq> (L CHR ''/'')) r1;
               r2 = dropWhile (\<lambda>c. c \<noteq> (L CHR ''/'')) r1
           in if group1 = [] then Inl (ValueError ((py ''Invalid 4chan thread URL: '') @ url))
              else (case strip_literal (py ''/thread/'') r2 of
                      None \<Rightarrow> Inl (ValueError ((py ''Invalid 4chan thread URL: '') @ url))
                    | Some r3 \<Rightarrow>
                        (let group2 = takeWhile (is_digit wide) r3
                         in if group2 = []
                            then Inl (ValueError ((py ''Invalid 4chan thread URL: '') @ url))
                            else Inr (group1, group2)))))"

text \<open>
  \<^verbatim>\<open>re.sub(r'<[^>]+>', '', s)\<close>: scanning from the left, a \<^verbatim>\<open><\<close> followed by a
  non-empty run without \<^verbatim>\<open>>\<close> and then a \<^verbatim>\<open>>\<close> is deleted; any other character is
  kept.
\<close>

function strip_tags :: "pystr \<Rightarrow> pystr" where
  "strip_tags [] = []"
| "strip_tags (c # cs) =
     (if c = (L CHR ''<'')
         \<and> takeWhile (\<lambda>x. x \<noteq> (L CHR ''>'')) cs \<noteq> []
         \<and> dropWhile (\<lambda>x. x \<noteq> (L CHR ''>'')) cs \<noteq> []
      then strip_tags (tl (dropWhile (\<lambda>x. x \<noteq> (L CHR ''>'')) cs))
      else c # strip_tags cs)"
  by pat_completeness auto
termination
  by (relation "measure length")
     (auto simp: less_Suc_eq_le intro!: order_trans [OF diff_le_self length_dropWhile_le])

text \<open>\<^verbatim>\<open>str(n)\<close> of an integer, in decimal.\<close>

fun str_nat :: "nat \<Rightarrow> pystr" where
  "str_nat n =
     (if n < 10 then [(py ''0123456789'') ! n]
      else str_nat (n div 10) @ [(py ''0123456789'') ! (n mod 10)])"

declare str_nat.simps [simp del]

definition str_int :: "int \<Rightarrow> pystr" where
  "str_int i = (if i < 0 then (L CHR ''-'') # str_nat (nat (- i)) else str_nat (nat i))"

subsection \<open>Truthiness\<close>

text \<open>\<^verbatim>\<open>not thread_data\<close>: \<^verbatim>\<open>None\<close> and the empty dict are falsy.\<close>

definition truthy :: "thread_data option \<Rightarrow> bool" where
  "truthy td = (case td of None \<Rightarrow> False | Some d \<Rightarrow> posts d \<noteq> None \<or> other_keys d)"

subsection \<open>Title of a thread\<close>

definition get_thread_title :: "thread_data option \<Rightarrow> py_exception + pystr" where
  "get_thread_title thread_data =
     (if \<not> truthy thread_data then Inr (py ''Unknown Thread'')
      else case posts (the thread_data) of
        None \<Rightarrow> Inr (py ''Unknown Thread'')
      | Some [] \<Rightarrow> Inl IndexError
      | Some (first_post # _) \<Rightarrow>
          (if sub first_post \<noteq> None \<and> the (sub first_post) \<noteq> []
           then Inr (the (sub first_post))
           else if com first_post \<noteq> None \<and> the (com first_post) \<noteq> []
           then (let comment = strip_tags (the (com first_post))
                 in Inr (if length comment > 50 then take 50 comment @ (py ''...'')
                         else comment))
           else Inr ((py ''Thread '') @
                     (case no first_post of None \<Rightarrow> (py ''Unknown'') | Some n \<Rightarrow> str_int n))))"

section \<open>The world the program runs in\<close>

text \<open>
  What one \<^verbatim>\<open>urlopen\<close> call of \<^verbatim>\<open>fetch_thread_data\<close> does: the document is read and
  decoded (\<open>Body\<close>), \<^verbatim>\<open>urllib.error.HTTPError\<close> is raised with a status code, any other
  \<^verbatim>\<open>Exception\<close> is raised (\<open>Failure\<close>: \<^verbatim>\<open>URLError\<close> of an unreachable network, a
  timeout, undecodable JSON), or the operator presses Ctrl-C (\<open>Interrupt\<close>).
\<close>

datatype response = Body thread_data | HTTPStatus int | Failure | Interrupt

text \<open>The texts printed by the program, with the values they are formatted from.\<close>

datatype message =
    ErrorFetching
  | FailedNotification pystr pystr
  | AlreadyTracked pystr pystr
  | CouldNotFetch pystr pystr
  | NowTracking pystr pystr pystr int
  | NoThreadsTracked
  | BoardHeader pystr
  | ThreadLine int pystr
  | NoThreadFound int
  | ConfirmPrompt pystr pystr pystr
  | Cancelled
  | StoppedTracking int
  | RemovedInactive nat
  | NotTracked pystr pystr
  | Monitoring pystr pystr pystr
  | CheckIntervalMsg int
  | NoLongerExists pystr pystr
  | NewPosts pystr pystr
  | StoppedMonitoring pystr pystr
  | ErrorMsg pystr

text \<open>The observable effects, in the order they happen.\<close>

datatype event =
    Fetch pystr
  | Notify pystr pystr
  | Save data
  | Sleep int
  | Print message

text \<open>
  What one call of \<^verbatim>\<open>subprocess.run\<close> with \<^verbatim>\<open>notify-send\<close> does, once the arguments are
  accepted: it returns (\<open>Delivered\<close>), it raises \<^verbatim>\<open>CalledProcessError\<close> or
  \<^verbatim>\<open>FileNotFoundError\<close>, the two exceptions \<^verbatim>\<open>send_notification\<close> catches
  (\<open>NotDelivered\<close>), or another exception leaves it (\<open>DeliveryRaises\<close>: the program may not
  be executed, an argument cannot be encoded).
\<close>

datatype delivery = Delivered | NotDelivered | DeliveryRaises py_exception

text \<open>
  What one call of \<^verbatim>\<open>input\<close> does: a line is read, and \<open>Answer y\<close> says whether the line,
  lower-cased and stripped, is \<^verbatim>\<open>'y'\<close>; or an exception leaves it (\<^verbatim>\<open>EOFError\<close> when the
  input is at its end, \<^verbatim>\<open>KeyboardInterrupt\<close>).
\<close>

datatype typed = Answer bool | InputRaises py_exception

text \<open>
  The state of the world: the tracking file \<^verbatim>\<open>TRACKING_FILE\<close>, the effects so far, and
  what the environment will answer. The \<open>k\<close>-th call of \<^verbatim>\<open>urlopen\<close> gets \<open>net k\<close>, the
  \<open>k\<close>-th \<^verbatim>\<open>time.time()\<close> returns \<open>clock k\<close>, the \<open>k\<close>-th run of \<^verbatim>\<open>notify-send\<close> ends as
  \<open>notify_send k\<close>, the \<open>k\<close>-th \<^verbatim>\<open>time.sleep\<close> is interrupted by Ctrl-C iff \<open>ctrl_c k\<close>,
  and the \<open>k\<close>-th call of \<^verbatim>\<open>input\<close> ends as \<open>stdin k\<close>. Ctrl-C is modelled at the blocking
  calls only.

  Three tables of the interpreter and the platform, which are not part of the program:
  \<open>unicode_digit\<close>, the wide code points that are decimal digits; \<open>fromtimestamp_error\<close>,
  the exception with which \<^verbatim>\<open>datetime.fromtimestamp\<close> refuses a timestamp outside the range
  of the platform, if it does; and \<open>sleep_overflow\<close>, the lengths that \<^verbatim>\<open>time.sleep\<close>
  refuses with \<^verbatim>\<open>OverflowError\<close> because they do not fit its clock type.
\<close>

record world =
  tracking_file :: file_state
  trace :: "event list"
  net :: "nat \<Rightarrow> response"
  fetches :: nat
  clock :: "nat \<Rightarrow> timestamp"
  ticks :: nat
  notify_send :: "nat \<Rightarrow> delivery"
  notifies :: nat
  ctrl_c :: "nat \<Rightarrow> bool"
  sleeps :: nat
  stdin :: "nat \<Rightarrow> typed"
  inputs :: nat
  unicode_digit :: "nat \<Rightarrow> bool"
  fromtimestamp_error :: "timestamp \<Rightarrow> py_exception option"
  sleep_overflow :: "int \<Rightarrow> bool"

definition emit :: "event \<Rightarrow> world \<Rightarrow> world" where
  "emit e w = w\<lparr>trace := trace w @ [e]\<rparr>"

definition print :: "message \<Rightarrow> world \<Rightarrow> world" where
  "print m w = emit (Print m) w"

definition time_time :: "world \<Rightarrow> timestamp \<times> world" where
  "time_time w = (clock w (ticks w), w\<lparr>ticks := Suc (ticks w)\<rparr>)"

text \<open>
  \<^verbatim>\<open>time.sleep\<close> converts the length to its clock type first, which fails with
  \<^verbatim>\<open>OverflowError\<close>, and then refuses a negative length with \<^verbatim>\<open>ValueError\<close>.
\<close>

definition time_sleep :: "int \<Rightarrow> world \<Rightarrow> (py_exception + unit) \<times> world" where
  "time_sleep secs w =
     (if sleep_overflow w secs then (Inl OverflowError, w)
      else if secs < 0 then (Inl (ValueError (py ''sleep length must be non-negative'')), w)
      else (let w1 = emit (Sleep secs) (w\<lparr>sleeps := Suc (sleeps w)\<rparr>)
            in if ctrl_c w (sleeps w) then (Inl KeyboardInterrupt, w1) else (Inr (), w1)))"

text \<open>\<^verbatim>\<open>input(...).lower().strip() == 'y'\<close>, or the exception that leaves \<^verbatim>\<open>input\<close>.\<close>

definition input_confirm :: "world \<Rightarrow> (py_exception + bool) \<times> world" where
  "input_confirm w =
     (case stdin w (inputs w) of
        Answer y \<Rightarrow> (Inr y, w\<lparr>inputs := Suc (inputs w)\<rparr>)
      | InputRaises e \<Rightarrow> (Inl e, w\<lparr>inputs := Suc (inputs w)\<rparr>))"

section \<open>The tracking file\<close>

definition load_tracking_data :: "world \<Rightarrow> data" where
  "load_tracking_data w =
     (case tracking_file w of
        Stored d \<Rightarrow> d
      | Corrupt \<Rightarrow> \<lparr>threads = [], next_id = 1\<rparr>
      | Missing \<Rightarrow> \<lparr>threads = [], next_id = 1\<rparr>)"

definition save_tracking_data :: "data \<Rightarrow> world \<Rightarrow> world" where
  "save_tracking_data d w = emit (Save d) (w\<lparr>tracking_file := Stored d\<rparr>)"

section \<open>Remote fetch and notification\<close>

definition fetch_thread_data ::
  "pystr \<Rightarrow> pystr \<Rightarrow> world \<Rightarrow> (py_exception + thread_data option) \<times> world" where
  "fetch_thread_data board thread_id w =
     (let api_url = (py ''https://a.4cdn.org/'') @ board @ (py ''/thread/'') @ thread_id @ (py ''.json'');
          w1 = emit (Fetch api_url) (w\<lparr>fetches := Suc (fetches w)\<rparr>)
      in case net w (fetches w) of
           Body d \<Rightarrow> (Inr (Some d), w1)
         | HTTPStatus code \<Rightarrow>
             if code = 404 then (Inr None, w1) else (Inl (HTTPError code), w1)
         | Failure \<Rightarrow> (Inr None, print ErrorFetching w1)
         | Interrupt \<Rightarrow> (Inl KeyboardInterrupt, w1))"

text \<open>
  \<^verbatim>\<open>subprocess.run\<close> refuses an argument that holds the character NUL with
  \<^verbatim>\<open>ValueError\<close>, before any process is started; only \<^verbatim>\<open>CalledProcessError\<close> and
  \<^verbatim>\<open>FileNotFoundError\<close> are caught.
\<close>

definition send_notification ::
  "pystr \<Rightarrow> pystr \<Rightarrow> pystr \<Rightarrow> world \<Rightarrow> (py_exception + unit) \<times> world" where
  "send_notification board thread_id post_content w =
     (let title = (py ''/'') @ board @ (py ''/ - '') @ thread_id;
          content = strip_tags post_content;
          content = (if length content > 200 then take 200 content @ (py ''...'') else content)
      in if L (CHR 0x00) \<in> set title \<or> L (CHR 0x00) \<in> set content
         then (Inl (ValueError (py ''embedded null byte'')), w)
         else (let w1 = emit (Notify title content) (w\<lparr>notifies := Suc (notifies w)\<rparr>)
               in case notify_send w (notifies w) of
                    Delivered \<Rightarrow> (Inr (), w1)
                  | NotDelivered \<Rightarrow> (Inr (), print (FailedNotification title content) w1)
                  | DeliveryRaises e \<Rightarrow> (Inl e, w1)))"

section \<open>Lifecycle operations\<close>

definition add_thread ::
  "pystr \<Rightarrow> pystr \<Rightarrow> int \<Rightarrow> world \<Rightarrow> (py_exception + unit) \<times> world" where
  "add_thread board thread_id check_interval w =
     (let data = load_tracking_data w;
          thread_key = board @ (py ''_'') @ thread_id
      in if map_of (threads data) thread_key \<noteq> None
         then (Inr (), print (AlreadyTracked board thread_id) w)
         else (case fetch_thread_data board thread_id w of
            (Inl e, w1) \<Rightarrow> (Inl e, w1)
          | (Inr thread_data, w1) \<Rightarrow>
              if \<not> truthy thread_data
              then (Inr (), print (CouldNotFetch board thread_id) w1)
              else (case posts (the thread_data) of
                 None \<Rightarrow> (Inl KeyError, w1)
               | Some ps \<Rightarrow>
                   if ps = [] then (Inl IndexError, w1)
                   else (case no (last ps) of
                      None \<Rightarrow> (Inl KeyError, w1)
                    | Some last_post_no \<Rightarrow>
                       (case get_thread_title thread_data of
                          Inl e \<Rightarrow> (Inl e, w1)
                        | Inr thread_title \<Rightarrow>
                           (let tracking_id = next_id data;
                                (t1, w2) = time_time w1;
                                (t2, w3) = time_time w2;
                                data = data\<lparr>threads :=
                                  AList.update thread_key
                                    \<lparr>info_id = tracking_id,
                                     info_board = board,
                                     info_thread_id = thread_id,
                                     info_title = thread_title,
                                     info_last_post_no = last_post_no,
                                     info_last_update = t1,
                                     info_check_interval = check_interval,
                                     info_added_time = t2\<rparr>
                                    (threads data)\<rparr>;
                                data = data\<lparr>next_id := next_id data + 1\<rparr>;
                                w4 = save_tracking_data data w3
                            in (Inr (),
                                print (NowTracking board thread_id thread_title tracking_id)
                                  w4)))))))"

text \<open>
  The rows of a board in \<^verbatim>\<open>list_threads\<close>: the records of the board, in the order of the
  dict, sorted by \<^verbatim>\<open>last_update\<close> with \<^verbatim>\<open>reverse=True\<close> (a stable sort: records with the
  same time keep their order).
\<close>

definition board_rows :: "pystr \<Rightarrow> (pystr \<times> thread_info) list \<Rightarrow> thread_info list" where
  "board_rows board ts =
     rev (sort_key info_last_update
            (rev (filter (\<lambda>thread_info. info_board thread_info = board) (map snd ts))))"

text \<open>
  The loop over the rows of a board. \<^verbatim>\<open>datetime.fromtimestamp\<close> may refuse the time of a
  record. The printed line holds the id and the title cut to 20 characters; its relative
  time, computed from the local time, is not modelled.
\<close>

fun print_rows :: "thread_info list \<Rightarrow> world \<Rightarrow> (py_exception + unit) \<times> world" where
  "print_rows [] w = (Inr (), w)"
| "print_rows (thread # rest) w =
     (case fromtimestamp_error w (info_last_update thread) of
        Some e \<Rightarrow> (Inl e, w)
      | None \<Rightarrow>
          (let title = (if length (info_title thread) > 20
                        then take 20 (info_title thread) @ (py ''...'')
                        else info_title thread)
           in print_rows rest (print (ThreadLine (info_id thread) title) w)))"

text \<open>The loop over \<^verbatim>\<open>sorted(boards.keys())\<close>: the header of the board, then its rows.\<close>

fun print_boards ::
  "pystr list \<Rightarrow> (pystr \<times> thread_info) list \<Rightarrow> world \<Rightarrow> (py_exception + unit) \<times> world" where
  "print_boards [] ts w = (Inr (), w)"
| "print_boards (board # rest) ts w =
     (case print_rows (board_rows board ts) (print (BoardHeader board) w) of
        (Inl e, w1) \<Rightarrow> (Inl e, w1)
      | (Inr _, w1) \<Rightarrow> print_boards rest ts w1)"

text \<open>Python orders strings by their code points, a prefix before its extensions.\<close>

definition list_threads :: "world \<Rightarrow> (py_exception + unit) \<times> world" where
  "list_threads w =
     (let data = load_tracking_data w
      in if threads data = [] then (Inr (), print NoThreadsTracked w)
         else print_boards
                (sort_key (map codepoint)
                   (remdups (map (\<lambda>(thread_key, thread_info). info_board thread_info)
                      (threads data))))
                (threads data) w)"

definition remove_thread ::
  "int \<Rightarrow> bool \<Rightarrow> world \<Rightarrow> (py_exception + unit) \<times> world" where
  "remove_thread tracking_id force w =
     (let data = load_tracking_data w
      in case find (\<lambda>(thread_key, thread_info). info_id thread_info = tracking_id)
                (threads data) of
           None \<Rightarrow> (Inr (), print (NoThreadFound tracking_id) w)
         | Some (thread_key_to_remove, thread_to_remove) \<Rightarrow>
             (let (confirm, w1) =
                    (if \<not> force
                     then input_confirm
                            (print (ConfirmPrompt (info_board thread_to_remove)
                                      (info_thread_id thread_to_remove)
                                      (info_title thread_to_remove)) w)
                     else (Inr True, w))
              in case confirm of
                   Inl e \<Rightarrow> (Inl e, w1)
                 | Inr confirmed \<Rightarrow>
                     if \<not> confirmed then (Inr (), print Cancelled w1)
                     else (let data = data\<lparr>threads :=
                                     AList.delete thread_key_to_remove (threads data)\<rparr>
                           in (Inr (),
                               print (StoppedTracking tracking_id)
                                 (save_tracking_data data w1)))))"

definition cleanup_old_threads :: "world \<Rightarrow> world" where
  "cleanup_old_threads w =
     (let data = load_tracking_data w;
          (current_time, w1) = time_time w;
          cutoff_time = current_time - (24 * 60 * 60);
          threads_to_remove =
            map fst (filter (\<lambda>(thread_key, thread_info).
                               info_last_update thread_info < cutoff_time) (threads data));
          data = data\<lparr>threads := fold AList.delete threads_to_remove (threads data)\<rparr>
      in if threads_to_remove \<noteq> []
         then print (RemovedInactive (length threads_to_remove))
                (save_tracking_data data w1)
         else w1)"

section \<open>The poll loop\<close>

text \<open>
  The inner loop of a cycle, over \<^verbatim>\<open>reversed(thread_data['posts'])\<close>; the cursor is not
  changed while it runs. A post without \<^verbatim>\<open>'no'\<close> raises \<^verbatim>\<open>KeyError\<close>, and an exception
  that leaves \<^verbatim>\<open>send_notification\<close> leaves the loop.
\<close>

fun notify_new_posts ::
  "pystr \<Rightarrow> pystr \<Rightarrow> int \<Rightarrow> post list \<Rightarrow> world \<Rightarrow> (py_exception + unit) \<times> world" where
  "notify_new_posts board thread_id cursor [] w = (Inr (), w)"
| "notify_new_posts board thread_id cursor (post # rest) w =
     (case no post of
        None \<Rightarrow> (Inl KeyError, w)
      | Some n \<Rightarrow>
          if n > cursor
          then (case send_notification board thread_id
                       (case com post of None \<Rightarrow> (py ''No content'') | Some c \<Rightarrow> c) w of
                  (Inl e, w1) \<Rightarrow> (Inl e, w1)
                | (Inr _, w1) \<Rightarrow> notify_new_posts board thread_id cursor rest w1)
          else notify_new_posts board thread_id cursor rest w)"

datatype flow = Continue | Break | Raise py_exception

definition sleep_step ::
  "int \<Rightarrow> data \<times> thread_info \<Rightarrow> world \<Rightarrow> flow \<times> (data \<times> thread_info) \<times> world" where
  "sleep_step check_interval st w =
     (case time_sleep check_interval w of
        (Inl e, w1) \<Rightarrow> (Raise e, st, w1)
      | (Inr _, w1) \<Rightarrow> (Continue, st, w1))"

text \<open>
  One pass through the body of \<^verbatim>\<open>while True\<close>. The loop variables are the document
  \<^verbatim>\<open>data\<close> loaded before the loop and \<^verbatim>\<open>thread_info\<close>, the entry of the thread in it
  (the same object in Python, so both are updated together).
\<close>

definition monitor_cycle ::
  "pystr \<Rightarrow> pystr \<Rightarrow> int \<Rightarrow> data \<times> thread_info \<Rightarrow> world
     \<Rightarrow> flow \<times> (data \<times> thread_info) \<times> world" where
  "monitor_cycle board thread_id check_interval st w =
     (let data = fst st; thread_info = snd st;
          thread_key = board @ (py ''_'') @ thread_id
      in case fetch_thread_data board thread_id w of
           (Inl e, w1) \<Rightarrow> (Raise e, st, w1)
         | (Inr thread_data, w1) \<Rightarrow>
             if \<not> truthy thread_data
             then (let w2 = print (NoLongerExists board thread_id) w1
                   in if map_of (threads data) thread_key = None
                      then (Raise KeyError, st, w2)
                      else (let data = data\<lparr>threads :=
                                      AList.delete thread_key (threads data)\<rparr>
                            in (Break, (data, thread_info), save_tracking_data data w2)))
             else (case posts (the thread_data) of
                None \<Rightarrow> (Raise KeyError, st, w1)
              | Some ps \<Rightarrow>
                  if ps = [] then (Raise IndexError, st, w1)
                  else (case no (last ps) of
                     None \<Rightarrow> (Raise KeyError, st, w1)
                   | Some latest_post_no \<Rightarrow>
                       if latest_post_no > info_last_post_no thread_info
                       then (case notify_new_posts board thread_id
                                    (info_last_post_no thread_info) (rev ps) w1 of
                               (Inl e, w2) \<Rightarrow> (Raise e, st, w2)
                             | (Inr _, w2) \<Rightarrow>
                                 (let (now, w3) = time_time w2;
                                      thread_info = thread_info
                                        \<lparr>info_last_post_no := latest_post_no,
                                         info_last_update := now\<rparr>;
                                      data = data\<lparr>threads :=
                                        AList.update thread_key thread_info (threads data)\<rparr>;
                                      w4 = print (NewPosts board thread_id)
                                             (save_tracking_data data w3)
                                  in sleep_step check_interval (data, thread_info) w4))
                       else sleep_step check_interval st w1)))"

text \<open>
  How a call ends: it returns, an exception leaves it, the process exits with a status, or
  (for the poll loop, which need not end) it is still running when the observed number of
  cycles is used up.
\<close>

datatype outcome = Returned | Raised py_exception | Exit int | Running

fun monitor_loop ::
  "nat \<Rightarrow> pystr \<Rightarrow> pystr \<Rightarrow> int \<Rightarrow> data \<times> thread_info \<Rightarrow> world \<Rightarrow> outcome \<times> world" where
  "monitor_loop 0 board thread_id check_interval st w = (Running, w)"
| "monitor_loop (Suc n) board thread_id check_interval st w =
     (case monitor_cycle board thread_id check_interval st w of
        (Continue, st1, w1) \<Rightarrow> monitor_loop n board thread_id check_interval st1 w1
      | (Break, st1, w1) \<Rightarrow> (Returned, w1)
      | (Raise e, st1, w1) \<Rightarrow> (Raised e, w1))"

definition monitor_thread ::
  "pystr \<Rightarrow> pystr \<Rightarrow> int \<Rightarrow> nat \<Rightarrow> world \<Rightarrow> outcome \<times> world" where
  "monitor_thread board thread_id check_interval cycles w =
     (let data = load_tracking_data w;
          thread_key = board @ (py ''_'') @ thread_id
      in case map_of (threads data) thread_key of
           None \<Rightarrow> (Returned, print (NotTracked board thread_id) w)
         | Some thread_info \<Rightarrow>
             (let w1 = print (Monitoring board thread_id (info_title thread_info)) w;
                  w2 = print (CheckIntervalMsg check_interval) w1;
                  r = monitor_loop cycles board thread_id check_interval (data, thread_info) w2
              in if fst r = Raised KeyboardInterrupt
                 then (Returned, print (StoppedMonitoring board thread_id) (snd r))
                 else r))"

section \<open>Command line\<close>

text \<open>
  The parsed arguments: exactly one of the first four is given (the group is mutually
  exclusive and required); an option not given is \<^verbatim>\<open>None\<close> (\<^verbatim>\<open>False\<close> for the flags).
\<close>

record args =
  arg_list :: bool
  arg_delete :: "int option"
  arg_url :: "pystr option"
  arg_manual :: "(pystr \<times> pystr) option"
  arg_interval :: int
  arg_force :: bool

text \<open>How a call that returns a value or raises ends.\<close>

definition completed :: "(py_exception + unit) \<times> world \<Rightarrow> outcome \<times> world" where
  "completed r = (case fst r of Inl e \<Rightarrow> (Raised e, snd r) | Inr _ \<Rightarrow> (Returned, snd r))"

text \<open>\<^verbatim>\<open>add_thread\<close> then \<^verbatim>\<open>monitor_thread\<close>, as both the url and the manual branch do.\<close>

definition add_and_monitor :: "pystr \<Rightarrow> pystr \<Rightarrow> int \<Rightarrow> nat \<Rightarrow> world \<Rightarrow> outcome \<times> world" where
  "add_and_monitor board thread_id check_interval cycles w =
     (case add_thread board thread_id check_interval w of
        (Inl e, w1) \<Rightarrow> (Raised e, w1)
      | (Inr _, w1) \<Rightarrow> monitor_thread board thread_id check_interval cycles w1)"

text \<open>\<^verbatim>\<open>except ValueError as e: print(f"Error: {e}"); sys.exit(1)\<close> of the url branch.\<close>

definition except_ValueError :: "outcome \<times> world \<Rightarrow> outcome \<times> world" where
  "except_ValueError r =
     (case fst r of
        Raised (ValueError msg) \<Rightarrow> (Exit 1, print (ErrorMsg msg) (snd r))
      | _ \<Rightarrow> r)"

text \<open>
  The \<^verbatim>\<open>if\<close>/\<^verbatim>\<open>elif\<close> chain of \<^verbatim>\<open>main\<close>, after \<^verbatim>\<open>parse_args\<close>. The branches test
  truthiness: \<^verbatim>\<open>args.delete\<close> is falsy for \<^verbatim>\<open>None\<close> and for \<^verbatim>\<open>0\<close>, \<^verbatim>\<open>args.url\<close> for
  \<^verbatim>\<open>None\<close> and for the empty string. Only the url branch is inside a \<^verbatim>\<open>try\<close>.
\<close>

definition dispatch :: "args \<Rightarrow> nat \<Rightarrow> world \<Rightarrow> outcome \<times> world" where
  "dispatch args cycles w =
     (if arg_list args then completed (list_threads w)
      else if arg_delete args \<noteq> None \<and> the (arg_delete args) \<noteq> 0
      then completed (remove_thread (the (arg_delete args)) (arg_force args) w)
      else if arg_url args \<noteq> None \<and> the (arg_url args) \<noteq> []
      then except_ValueError
             (case parse_thread_url (unicode_digit w) (the (arg_url args)) of
                Inl e \<Rightarrow> (Raised e, w)
              | Inr (board, thread_id) \<Rightarrow>
                  add_and_monitor board thread_id (arg_interval args) cycles w)
      else if arg_manual args \<noteq> None
      then (case the (arg_manual args) of
              (board, thread_id) \<Rightarrow>
                add_and_monitor board thread_id (arg_interval args) cycles w)
      else (Returned, w))"

text \<open>
  \<^verbatim>\<open>main\<close>: the chain, and then the sweep, which is reached when the chosen branch
  returns (an exception or \<^verbatim>\<open>sys.exit\<close> leaves \<^verbatim>\<open>main\<close> before it).
\<close>

definition main :: "args \<Rightarrow> nat \<Rightarrow> world \<Rightarrow> outcome \<times> world" where
  "main args cycles w =
     (let r = dispatch args cycles w
      in if fst r = Returned then (Returned, cleanup_old_threads (snd r)) else r)"

section \<open>Notions of the specification\<close>

text \<open>
  A text that starts with a thread URL: the fixed prefix, a board (non-empty, no slash),
  \<^verbatim>\<open>/thread/\<close>, a thread id (a non-empty run of decimal digits that \<open>rest\<close> does not
  continue), and any \<open>rest\<close>. The digits are those of the table \<open>wide\<close> and \<^verbatim>\<open>0\<close> to \<^verbatim>\<open>9\<close>.
\<close>

definition url_shape ::
  "(nat \<Rightarrow> bool) \<Rightarrow> pystr \<Rightarrow> pystr \<Rightarrow> pystr \<Rightarrow> pystr \<Rightarrow> bool" where
  "url_shape wide url b t rest \<longleftrightarrow>
     url = (py ''https://boards.4chan.org/'') @ b @ (py ''/thread/'') @ t @ rest
     \<and> b \<noteq> [] \<and> (L CHR ''/'') \<notin> set b
     \<and> t \<noteq> [] \<and> (\<forall>c\<in>set t. is_digit wide c)
     \<and> (rest = [] \<or> \<not> is_digit wide (hd rest))"

text \<open>
  The canonical form \<^verbatim>\<open>https://boards.4chan.org/<board>/thread/<numeric-id>\<close>: the whole
  text is the URL.
\<close>

definition canonical_url :: "(nat \<Rightarrow> bool) \<Rightarrow> pystr \<Rightarrow> bool" where
  "canonical_url wide url \<longleftrightarrow> (\<exists>b t. url_shape wide url b t [])"

text \<open>
  The decimal numeral of a number, as \<^verbatim>\<open>str\<close> and an f-string write it: a non-empty text of
  the digits \<^verbatim>\<open>0\<close> to \<^verbatim>\<open>9\<close> that denotes the number and has no leading zero; a negative
  integer is written with a minus sign in front.
\<close>

definition ascii_digit :: "pychar \<Rightarrow> bool" where
  "ascii_digit c \<longleftrightarrow> c \<in> set (py ''0123456789'')"

definition digit_value :: "pychar \<Rightarrow> nat" where
  "digit_value c = (case c of L a \<Rightarrow> of_char a - 48 | Wide n \<Rightarrow> 0)"

definition decimal_value :: "pystr \<Rightarrow> nat" where
  "decimal_value s = foldl (\<lambda>a c. 10 * a + digit_value c) 0 s"

definition decimal_numeral :: "nat \<Rightarrow> pystr \<Rightarrow> bool" where
  "decimal_numeral n s \<longleftrightarrow>
     s \<noteq> [] \<and> list_all ascii_digit s \<and> decimal_value s = n
     \<and> (hd s = L CHR ''0'' \<longrightarrow> s = py ''0'')"

definition integer_numeral :: "int \<Rightarrow> pystr \<Rightarrow> bool" where
  "integer_numeral i s \<longleftrightarrow>
     (if i < 0 then s \<noteq> [] \<and> hd s = L CHR ''-'' \<and> decimal_numeral (nat (- i)) (tl s)
      else decimal_numeral (nat i) s)"

text \<open>A record is stale when its last update is more than 24 hours before \<open>now\<close>.\<close>

definition stale :: "timestamp \<Rightarrow> pystr \<times> thread_info \<Rightarrow> bool" where
  "stale now entry \<longleftrightarrow> now - info_last_update (snd entry) > 24 * 60 * 60"

section \<open>Example data\<close>

text \<open>
  The wide decimal digits of Unicode 14.0, the database of CPython 3.11, as ranges of code
  points.
\<close>

definition unicode_ranges :: "(nat \<times> nat) list" where
  "unicode_ranges =
     [(1632, 1641), (1776, 1785), (1984, 1993), (2406, 2415), (2534, 2543), (2662, 2671),
      (2790, 2799), (2918, 2927), (3046, 3055), (3174, 3183), (3302, 3311), (3430, 3439),
      (3558, 3567), (3664, 3673), (3792, 3801), (3872, 3881), (4160, 4169), (4240, 4249),
      (6112, 6121), (6160, 6169), (6470, 6479), (6608, 6617), (6784, 6793), (6800, 6809),
      (6992, 7001), (7088, 7097), (7232, 7241), (7248, 7257), (42528, 42537),
      (43216, 43225), (43264, 43273), (43472, 43481), (43504, 43513), (43600, 43609),
      (44016, 44025), (65296, 65305), (66720, 66729), (68912, 68921), (69734, 69743),
      (69872, 69881), (69942, 69951), (70096, 70105), (70384, 70393), (70736, 70745),
      (70864, 70873), (71248, 71257), (71360, 71369), (71472, 71481), (71904, 71913),
      (72016, 72025), (72784, 72793), (73040, 73049), (73120, 73129), (92768, 92777),
      (92864, 92873), (93008, 93017), (120782, 120831), (123200, 123209),
      (123632, 123641), (125264, 125273), (130032, 130041)]"

definition unicode_14 :: "nat \<Rightarrow> bool" where
  "unicode_14 n = list_ex (\<lambda>(lo, hi). lo \<le> 256 + n \<and> 256 + n \<le> hi) unicode_ranges"

text \<open>
  Two tracked threads, and a world with an empty trace in which the clock stands still at
  \<open>t\<close>, every notification is delivered, nobody presses Ctrl-C and every prompt is answered
  with \<^verbatim>\<open>y\<close>; the digits are those of Unicode 14.0, every timestamp can be shown as a date,
  and \<^verbatim>\<open>time.sleep\<close> has a 64-bit clock of nanoseconds.
\<close>

definition info_g :: thread_info where
  "info_g = \<lparr>info_id = 1, info_board = (py ''g''), info_thread_id = (py ''100''), info_title = (py ''News''),
              info_last_post_no = 105, info_last_update = 90000, info_check_interval = 60,
              info_added_time = 90000\<rparr>"

definition info_a :: thread_info where
  "info_a = \<lparr>info_id = 2, info_board = (py ''a''), info_thread_id = (py ''200''), info_title = (py ''Old''),
              info_last_post_no = 7, info_last_update = 5000, info_check_interval = 120,
              info_added_time = 5000\<rparr>"

definition example_data :: data where
  "example_data = \<lparr>threads = [((py ''g_100''), info_g), ((py ''a_200''), info_a)], next_id = 3\<rparr>"

definition world0 :: "file_state \<Rightarrow> (nat \<Rightarrow> response) \<Rightarrow> timestamp \<Rightarrow> world" where
  "world0 f n t =
     \<lparr>tracking_file = f, trace = [], net = n, fetches = 0, clock = (\<lambda>k. t), ticks = 0,
      notify_send = (\<lambda>k. Delivered), notifies = 0, ctrl_c = (\<lambda>k. False), sleeps = 0,
      stdin = (\<lambda>k. Answer True), inputs = 0, unicode_digit = unicode_14,
      fromtimestamp_error = (\<lambda>t. None),
      sleep_overflow = (\<lambda>secs. secs < - 9223372036 \<or> 9223372036 < secs)\<rparr>"

section \<open>Sequences of lifecycle operations\<close>

text \<open>
  The tracking ids handed out, read off the effects: \<open>add_thread\<close> prints the id it has
  assigned, and prints it only after it has saved the new record.
\<close>

fun allocated :: "event \<Rightarrow> int list" where
  "allocated (Print (NowTracking b t ttl i)) = [i]"
| "allocated e = []"

definition tracked_ids :: "event list \<Rightarrow> int list" where
  "tracked_ids evs = concat (map allocated evs)"

text \<open>
  A lifecycle operation, with its arguments. An exception that leaves an operation ends
  that call only: the next operation finds the world as the call left it.
\<close>

datatype operation = Add pystr pystr int | Remove int bool | Expire

fun apply_operation :: "operation \<Rightarrow> world \<Rightarrow> world" where
  "apply_operation (Add board thread_id check_interval) w =
     snd (add_thread board thread_id check_interval w)"
| "apply_operation (Remove tracking_id force) w = snd (remove_thread tracking_id force w)"
| "apply_operation Expire w = cleanup_old_threads w"

definition run :: "operation list \<Rightarrow> world \<Rightarrow> world" where
  "run ops w = fold apply_operation ops w"

text \<open>The invariant of the registry: \<open>next_id\<close> exceeds the id of every record.\<close>

definition ids_below_next :: "data \<Rightarrow> bool" where
  "ids_below_next d \<longleftrightarrow> (\<forall>entry\<in>set (threads d). info_id (snd entry) < next_id d)"

definition ids_distinct :: "data \<Rightarrow> bool" where
  "ids_distinct d \<longleftrightarrow> distinct (map (\<lambda>entry. info_id (snd entry)) (threads d))"

text \<open>The remote answers every fetch with a thread of one post, number 7.\<close>

definition one_post :: "nat \<Rightarrow> response" where
  "one_post k =
     Body \<lparr>posts = Some [\<lparr>no = Some 7, sub = Some (py ''Hi''), com = None\<rparr>], other_keys = False\<rparr>"



text \<open>What one operation does to the registry and to the ids handed out.\<close>

definition step_ok :: "world \<Rightarrow> world \<Rightarrow> bool" where
  "step_ok w w' \<longleftrightarrow>
     (\<exists>evs. trace w' = trace w @ evs \<and>
        ((tracked_ids evs = []
          \<and> next_id (load_tracking_data w') = next_id (load_tracking_data w)
          \<and> (\<exists>P. threads (load_tracking_data w') = filter P (threads (load_tracking_data w))))
         \<or> (tracked_ids evs = [next_id (load_tracking_data w)]
          \<and> next_id (load_tracking_data w') = next_id (load_tracking_data w) + 1
          \<and> (\<exists>k info. threads (load_tracking_data w')
                 = threads (load_tracking_data w) @ [(k, info)]
               \<and> info_id info = next_id (load_tracking_data w)))))"

section \<open>Notifications in the trace\<close>

text \<open>
  What the notification adapter is called with for a post: the title names the board and the
  thread, the body is the post's comment (\<^verbatim>\<open>No content\<close> when it has none) with the tags
  stripped, cut to 200 characters and \<^verbatim>\<open>...\<close> when longer.
\<close>

definition payload :: "pystr \<Rightarrow> pystr \<Rightarrow> post \<Rightarrow> pystr \<times> pystr" where
  "payload board thread_id p =
     ((py ''/'') @ board @ (py ''/ - '') @ thread_id,
      (let content = strip_tags (case com p of None \<Rightarrow> (py ''No content'') | Some c \<Rightarrow> c)
       in if length content > 200 then take 200 content @ (py ''...'') else content))"

fun notified :: "event \<Rightarrow> (pystr \<times> pystr) list" where
  "notified (Notify t c) = [(t, c)]"
| "notified e = []"

definition notifications :: "event list \<Rightarrow> (pystr \<times> pystr) list" where
  "notifications evs = concat (map notified evs)"

text \<open>The events of the inner loop: a notification, or the report that one failed.\<close>

fun notify_event :: "event \<Rightarrow> bool" where
  "notify_event (Notify t c) = True"
| "notify_event (Print (FailedNotification t c)) = True"
| "notify_event e = False"

text \<open>A thread of three posts, in ascending order, the last one without a comment.\<close>

definition three_posts :: thread_data where
  "three_posts =
     \<lparr>posts = Some [\<lparr>no = Some 104, sub = Some (py ''News''), com = Some (py ''first'')\<rparr>,
                     \<lparr>no = Some 106, sub = None, com = Some (py ''<b>second</b>'')\<rparr>,
                     \<lparr>no = Some 107, sub = None, com = None\<rparr>],
      other_keys = False\<rparr>"

text \<open>
  The same thread, with the character NUL in the comment of post 106 (the JSON string
  \<^verbatim>\<open>"a\u0000b"\<close>).
\<close>

definition nul_posts :: thread_data where
  "nul_posts =
     \<lparr>posts = Some [\<lparr>no = Some 104, sub = Some (py ''News''), com = Some (py ''first'')\<rparr>,
                     \<lparr>no = Some 106, sub = None,
                      com = Some (py ''a'' @ L (CHR 0x00) # py ''b'')\<rparr>,
                     \<lparr>no = Some 107, sub = None, com = None\<rparr>],
      other_keys = False\<rparr>"

text \<open>The arguments for a post are accepted by \<^verbatim>\<open>subprocess.run\<close>: they hold no NUL.\<close>

definition accepted :: "pystr \<Rightarrow> pystr \<Rightarrow> post \<Rightarrow> bool" where
  "accepted board thread_id p \<longleftrightarrow>
     L (CHR 0x00) \<notin> set (fst (payload board thread_id p))
     \<and> L (CHR 0x00) \<notin> set (snd (payload board thread_id p))"

section \<open>Extensions of the trace\<close>

text \<open>
  \<open>appended P w w'\<close>: the trace of \<open>w'\<close> is the trace of \<open>w\<close> followed by events that all
  satisfy \<open>P\<close>.
\<close>

definition appended :: "(event \<Rightarrow> bool) \<Rightarrow> world \<Rightarrow> world \<Rightarrow> bool" where
  "appended P w w' \<longleftrightarrow> (\<exists>evs. trace w' = trace w @ evs \<and> list_all P evs)"

fun not_sleep :: "event \<Rightarrow> bool" where
  "not_sleep (Sleep n) = False"
| "not_sleep e = True"

text \<open>Every suspension among the events lasts \<open>c\<close> seconds.\<close>

definition sleeps_for :: "int \<Rightarrow> event \<Rightarrow> bool" where
  "sleeps_for c e \<longleftrightarrow> (\<forall>n. e = Sleep n \<longrightarrow> n = c)"

text \<open>
  Parsed command lines: \<^verbatim>\<open>-u URL -i SECONDS\<close>, and \<^verbatim>\<open>-d ID\<close> with or without \<^verbatim>\<open>-f\<close>.
\<close>

definition url_args :: "pystr \<Rightarrow> int \<Rightarrow> args" where
  "url_args u i =
     \<lparr>arg_list = False, arg_delete = None, arg_url = Some u, arg_manual = None,
      arg_interval = i, arg_force = False\<rparr>"

definition delete_args :: "int \<Rightarrow> bool \<Rightarrow> args" where
  "delete_args i f =
     \<lparr>arg_list = False, arg_delete = Some i, arg_url = None, arg_manual = None,
      arg_interval = 120, arg_force = f\<rparr>"

text \<open>The remote answers the first fetch with the three posts and then with status 404.\<close>

definition new_posts_then_gone :: "nat \<Rightarrow> response" where
  "new_posts_then_gone k = (if k = 0 then Body three_posts else HTTPStatus 404)"

section \<open>Parsing a thread URL\<close>

lemma strip_literal_Some: "strip_literal p s = Some r \<longleftrightarrow> s = p @ r"
  by (induction p s rule: strip_literal.induct) auto

lemma strip_literal_append: "strip_literal p (p @ r) = Some r"
  by (simp add: strip_literal_Some)

lemma takeWhile_run: "(\<forall>c\<in>set t. P c) \<Longrightarrow> rest = [] \<or> \<not> P (hd rest) \<Longrightarrow> takeWhile P (t @ rest) = t"
  by (cases rest) (auto simp: takeWhile_append2)

lemma dropWhile_run: "(\<forall>c\<in>set t. P c) \<Longrightarrow> rest = [] \<or> \<not> P (hd rest) \<Longrightarrow> dropWhile P (t @ rest) = rest"
  by (cases rest) (auto simp: dropWhile_append2)

lemma parse_shape:
  assumes "url_shape wide url b t rest"
  shows "parse_thread_url wide url = Inr (b, t)"
proof -
  let ?r1 = "b @ (py ''/thread/'') @ t @ rest"
  from assms have url: "url = (py ''https://boards.4chan.org/'') @ ?r1"
    and b: "b \<noteq> []" "(L CHR ''/'') \<notin> set b"
    and t: "t \<noteq> []" "\<forall>c\<in>set t. is_digit wide c" "rest = [] \<or> \<not> is_digit wide (hd rest)"
    by (auto simp: url_shape_def)
  have s1: "strip_literal (py ''https://boards.4chan.org/'') url = Some ?r1"
    unfolding url by (rule strip_literal_append)
  have g1: "takeWhile (\<lambda>c. c \<noteq> (L CHR ''/'')) ?r1 = b"
    using b(2) by (intro takeWhile_run) auto
  have d1: "dropWhile (\<lambda>c. c \<noteq> (L CHR ''/'')) ?r1 = (py ''/thread/'') @ t @ rest"
    using b(2) by (intro dropWhile_run) auto
  have s2: "strip_literal (py ''/thread/'') ((py ''/thread/'') @ t @ rest) = Some (t @ rest)"
    by (rule strip_literal_append)
  have g2: "takeWhile (is_digit wide) (t @ rest) = t"
    using t(2,3) by (rule takeWhile_run)
  show ?thesis
    unfolding parse_thread_url_def s1 option.case Let_def g1 d1 s2 g2 using b(1) t(1) by simp
qed

lemma parse_Inr_shape:
  assumes "parse_thread_url wide url = Inr (b, t)"
  shows "\<exists>rest. url_shape wide url b t rest"
proof -
  from assms obtain r1 where s1: "strip_literal (py ''https://boards.4chan.org/'') url = Some r1"
    by (auto simp: parse_thread_url_def split: option.splits)
  define r2 where "r2 = dropWhile (\<lambda>c. c \<noteq> (L CHR ''/'')) r1"
  from assms s1 obtain r3 where s2: "strip_literal (py ''/thread/'') r2 = Some r3"
    and b: "b = takeWhile (\<lambda>c. c \<noteq> (L CHR ''/'')) r1" "b \<noteq> []"
    and t: "t = takeWhile (is_digit wide) r3" "t \<noteq> []"
    by (auto simp: parse_thread_url_def Let_def r2_def split: option.splits if_splits)
  have "r1 = b @ r2" by (simp add: b r2_def)
  moreover have "r2 = (py ''/thread/'') @ r3" using s2 by (simp only: strip_literal_Some)
  moreover have "r3 = t @ dropWhile (is_digit wide) r3" by (simp add: t)
  moreover have "url = (py ''https://boards.4chan.org/'') @ r1" using s1 by (simp only: strip_literal_Some)
  ultimately have url: "url = (py ''https://boards.4chan.org/'') @ b @ (py ''/thread/'') @ t @ dropWhile (is_digit wide) r3"
    by simp
  have "(L CHR ''/'') \<notin> set b" unfolding b by (auto dest: set_takeWhileD)
  moreover have "\<forall>c\<in>set t. is_digit wide c" unfolding t by (auto dest: set_takeWhileD)
  moreover have "dropWhile (is_digit wide) r3 = [] \<or> \<not> is_digit wide (hd (dropWhile (is_digit wide) r3))"
    using hd_dropWhile [of "is_digit wide" r3] by blast
  ultimately have "url_shape wide url b t (dropWhile (is_digit wide) r3)"
    unfolding url_shape_def using url b(2) t(2) by blast
  then show ?thesis ..
qed

lemma parse_Inl: "parse_thread_url wide url = Inl e \<Longrightarrow> e = ValueError ((py ''Invalid 4chan thread URL: '') @ url)"
  by (auto simp: parse_thread_url_def Let_def split: option.splits if_splits)

text \<open>
  C5, as the code has it, for every table \<open>wide\<close> of wide decimal digits:
  \<open>parse_thread_url\<close> returns \<open>(board, thread_id)\<close> exactly for the texts that start with
  a thread URL, whatever follows the digits; every other text raises \<^verbatim>\<open>ValueError\<close> with
  the message naming the text.
\<close>

theorem parse_thread_url_prefix_match:
  "(parse_thread_url wide url = Inr (b, t) \<longleftrightarrow> (\<exists>rest. url_shape wide url b t rest))
   \<and> ((\<forall>b t rest. \<not> url_shape wide url b t rest)
        \<longrightarrow> parse_thread_url wide url = Inl (ValueError ((py ''Invalid 4chan thread URL: '') @ url)))"
proof (intro conjI impI iffI)
  assume "parse_thread_url wide url = Inr (b, t)" then show "\<exists>rest. url_shape wide url b t rest" by (rule parse_Inr_shape)
next
  assume "\<exists>rest. url_shape wide url b t rest" then show "parse_thread_url wide url = Inr (b, t)" by (auto intro: parse_shape)
next
  assume no: "\<forall>b t rest. \<not> url_shape wide url b t rest"
  show "parse_thread_url wide url = Inl (ValueError ((py ''Invalid 4chan thread URL: '') @ url))"
  proof (cases "parse_thread_url wide url")
    case (Inl e) then show ?thesis using parse_Inl by simp
  next
    case (Inr p) then show ?thesis using parse_Inr_shape [of wide url "fst p" "snd p"] no by simp
  qed
qed

text \<open>
  C5 as stated fails: a text that continues after the digits is not of the canonical form,
  and is parsed all the same.
\<close>

theorem parse_thread_url_trailing_text_counterexample:
  "\<not> canonical_url unicode_14 (py ''https://boards.4chan.org/g/thread/123/catalog'')
   \<and> parse_thread_url unicode_14 (py ''https://boards.4chan.org/g/thread/123/catalog'')
       = Inr (py ''g'', py ''123'')"
proof
  let ?u = "py ''https://boards.4chan.org/g/thread/123/catalog''"
  show "\<not> canonical_url unicode_14 ?u"
  proof
    assume "canonical_url unicode_14 ?u"
    then obtain b t where u: "?u = (py ''https://boards.4chan.org/'') @ b @ (py ''/thread/'') @ t"
      and t: "t \<noteq> []" "\<forall>c\<in>set t. is_digit unicode_14 c"
      by (auto simp: canonical_url_def url_shape_def)
    have "last ?u = last t" by (subst u) (simp add: t(1))
    moreover have "last ?u = L CHR ''g''" by simp
    ultimately have "L CHR ''g'' \<in> set t" using t(1) last_in_set [of t] by simp
    with t(2) show False by (auto simp: is_digit_def)
  qed
  show "parse_thread_url unicode_14 ?u = Inr (py ''g'', py ''123'')"
    by (simp add: parse_thread_url_def is_digit_def)
qed

text \<open>
  The theorem of C5 at three texts: one that starts with a thread URL, one whose thread id
  ends with the Arabic-Indic digit three (code point 1635), and one that does not start
  with a thread URL.
\<close>

theorem parse_thread_url_prefix_match_witness:
  "url_shape unicode_14 (py ''https://boards.4chan.org/g/thread/123#p456'')
     (py ''g'') (py ''123'') (py ''#p456'')
   \<and> parse_thread_url unicode_14 (py ''https://boards.4chan.org/g/thread/123#p456'')
       = Inr (py ''g'', py ''123'')
   \<and> url_shape unicode_14 (py ''https://boards.4chan.org/g/thread/12'' @ Wide 1379 # py ''/x'')
     (py ''g'') (py ''12'' @ [Wide 1379]) (py ''/x'')
   \<and> parse_thread_url unicode_14 (py ''https://boards.4chan.org/g/thread/12'' @ Wide 1379 # py ''/x'')
       = Inr (py ''g'', py ''12'' @ [Wide 1379])
   \<and> (\<forall>b t rest. \<not> url_shape unicode_14 (py ''boards.4chan.org/g/thread/123'') b t rest)
   \<and> parse_thread_url unicode_14 (py ''boards.4chan.org/g/thread/123'')
       = Inl (ValueError (py ''Invalid 4chan thread URL: boards.4chan.org/g/thread/123''))"
proof -
  have d: "unicode_14 1379"
    by (simp add: unicode_14_def unicode_ranges_def)
  have s: "url_shape unicode_14 (py ''https://boards.4chan.org/g/thread/123#p456'')
     (py ''g'') (py ''123'') (py ''#p456'')"
    by (simp add: url_shape_def is_digit_def)
  have a: "url_shape unicode_14 (py ''https://boards.4chan.org/g/thread/12'' @ Wide 1379 # py ''/x'')
     (py ''g'') (py ''12'' @ [Wide 1379]) (py ''/x'')"
    using d by (simp add: url_shape_def is_digit_def)
  have n: "\<forall>b t rest. \<not> url_shape unicode_14 (py ''boards.4chan.org/g/thread/123'') b t rest"
    by (simp add: url_shape_def)
  have p1: "parse_thread_url unicode_14 (py ''https://boards.4chan.org/g/thread/123#p456'')
       = Inr (py ''g'', py ''123'')"
    using s parse_thread_url_prefix_match
        [of unicode_14 "py ''https://boards.4chan.org/g/thread/123#p456''" "py ''g''" "py ''123''"]
    by blast
  have p2: "parse_thread_url unicode_14 (py ''https://boards.4chan.org/g/thread/12'' @ Wide 1379 # py ''/x'')
       = Inr (py ''g'', py ''12'' @ [Wide 1379])"
    using a parse_thread_url_prefix_match
        [of unicode_14 "py ''https://boards.4chan.org/g/thread/12'' @ Wide 1379 # py ''/x''"
            "py ''g''" "py ''12'' @ [Wide 1379]"]
    by blast
  have "parse_thread_url unicode_14 (py ''boards.4chan.org/g/thread/123'')
       = Inl (ValueError (py ''Invalid 4chan thread URL: '' @ py ''boards.4chan.org/g/thread/123''))"
    using n parse_thread_url_prefix_match [of unicode_14 "py ''boards.4chan.org/g/thread/123''"]
    by blast
  then have p3: "parse_thread_url unicode_14 (py ''boards.4chan.org/g/thread/123'')
       = Inl (ValueError (py ''Invalid 4chan thread URL: boards.4chan.org/g/thread/123''))"
    by simp
  from s p1 a p2 n p3 show ?thesis by blast
qed

section \<open>Title of a thread\<close>


text \<open>A tag in front of which there is no \<^verbatim>\<open><\<close> is removed, the text before it is kept.\<close>

lemma strip_tags_tag:
  assumes "(L CHR ''<'') \<notin> set a" "tag \<noteq> []" "(L CHR ''>'') \<notin> set tag"
  shows "strip_tags (a @ (L CHR ''<'') # tag @ (L CHR ''>'') # b) = a @ strip_tags b"
  using assms(1)
proof (induction a)
  case Nil
  have t: "takeWhile (\<lambda>x. x \<noteq> (L CHR ''>'')) (tag @ (L CHR ''>'') # b) = tag"
    using assms(3) by (intro takeWhile_run) auto
  have d: "dropWhile (\<lambda>x. x \<noteq> (L CHR ''>'')) (tag @ (L CHR ''>'') # b) = (L CHR ''>'') # b"
    using assms(3) by (intro dropWhile_run) auto
  show ?case using assms(2) by (simp add: t d)
next
  case (Cons c a)
  then have "c \<noteq> (L CHR ''<'')" "(L CHR ''<'') \<notin> set a" by auto
  with Cons.IH show ?case by simp
qed



lemma decimal_value_snoc: "decimal_value (s @ [c]) = 10 * decimal_value s + digit_value c"
  by (simp add: decimal_value_def)



text \<open>A number has one decimal numeral, the one \<open>str_int\<close> writes.\<close>

lemma ascii_digit_char:
  assumes "ascii_digit c"
  shows "digit_value c < 10" "(py ''0123456789'') ! digit_value c = c"
  using assms by (auto simp: ascii_digit_def digit_value_def)

lemma decimal_value_zero:
  "list_all ascii_digit r \<Longrightarrow> r \<noteq> [] \<Longrightarrow> decimal_value r = 0 \<Longrightarrow> hd r = L CHR ''0''"
proof (induction r rule: rev_induct)
  case Nil
  then show ?case by simp
next
  case (snoc c r)
  from snoc.prems have c: "ascii_digit c" and v: "decimal_value r = 0" "digit_value c = 0"
    by (simp_all add: decimal_value_snoc)
  show ?case
  proof (cases "r = []")
    case True
    from ascii_digit_char(2) [OF c] v(2) have "c = L CHR ''0''" by simp
    with True show ?thesis by simp
  next
    case False
    with snoc v(1) have "hd r = L CHR ''0''" by simp
    with False show ?thesis by simp
  qed
qed

lemma decimal_numeral_str_nat: "decimal_numeral n s \<Longrightarrow> s = str_nat n"
proof (induction n arbitrary: s rule: str_nat.induct)
  case (1 n)
  from "1.prems" have ne: "s \<noteq> []" and dg: "list_all ascii_digit s"
    and v: "decimal_value s = n" and z: "hd s = L CHR ''0'' \<longrightarrow> s = py ''0''"
    by (simp_all add: decimal_numeral_def)
  from ne obtain r c where s: "s = r @ [c]" by (metis rev_exhaust)
  from dg s have c: "ascii_digit c" and r: "list_all ascii_digit r" by simp_all
  from v s have n: "n = 10 * decimal_value r + digit_value c" by (simp add: decimal_value_snoc)
  note dc = ascii_digit_char [OF c]
  show ?case
  proof (cases "r = []")
    case True
    with n have "n = digit_value c" by (simp add: decimal_value_def)
    with dc have "n < 10" "(py ''0123456789'') ! n = c" by simp_all
    then have "str_nat n = [c]" by (subst str_nat.simps) simp
    with True s show ?thesis by simp
  next
    case False
    have h: "hd r \<noteq> L CHR ''0''"
    proof
      assume "hd r = L CHR ''0''"
      with False s have "hd s = L CHR ''0''" by simp
      with z s have "r @ [c] = py ''0''" by simp
      with False show False by (cases r) simp_all
    qed
    with r False have "decimal_value r \<noteq> 0" using decimal_value_zero by blast
    with n have big: "\<not> n < 10" by simp
    from n dc(1) have d: "n div 10 = decimal_value r" "n mod 10 = digit_value c" by simp_all
    have "decimal_numeral (n div 10) r"
      using False r h d(1) by (simp add: decimal_numeral_def)
    with big have "r = str_nat (n div 10)" by (rule "1.IH")
    moreover have "str_nat n = str_nat (n div 10) @ [(py ''0123456789'') ! (n mod 10)]"
      using big by (subst str_nat.simps) simp
    ultimately show ?thesis using s d(2) dc(2) by simp
  qed
qed

lemma integer_numeral_str_int: "integer_numeral i s \<Longrightarrow> s = str_int i"
proof (cases "i < 0")
  case True
  assume "integer_numeral i s"
  with True have "s \<noteq> []" "hd s = L CHR ''-''" "decimal_numeral (nat (- i)) (tl s)"
    by (simp_all add: integer_numeral_def)
  then have "s = L CHR ''-'' # str_nat (nat (- i))"
    using decimal_numeral_str_nat [of "nat (- i)" "tl s"] by (cases s) simp_all
  with True show ?thesis by (simp add: str_int_def)
next
  case False
  assume "integer_numeral i s"
  with False show ?thesis by (simp add: integer_numeral_def str_int_def decimal_numeral_str_nat)
qed

lemma integer_numeral_unique: "integer_numeral i s \<Longrightarrow> integer_numeral i t \<Longrightarrow> s = t"
  using integer_numeral_str_int [of i s] integer_numeral_str_int [of i t] by simp





section \<open>Effects of the primitive steps\<close>

lemma trace_emit [simp]: "trace (emit e w) = trace w @ [e]"
  by (simp add: emit_def)

lemma trace_print [simp]: "trace (print m w) = trace w @ [Print m]"
  by (simp add: print_def)

lemma file_emit [simp]: "tracking_file (emit e w) = tracking_file w"
  by (simp add: emit_def)

lemma file_print [simp]: "tracking_file (print m w) = tracking_file w"
  by (simp add: print_def)

lemma load_emit [simp]: "load_tracking_data (emit e w) = load_tracking_data w"
  by (simp add: load_tracking_data_def)

lemma load_print [simp]: "load_tracking_data (print m w) = load_tracking_data w"
  by (simp add: load_tracking_data_def)

lemma load_ticks [simp]: "load_tracking_data (w\<lparr>ticks := n\<rparr>) = load_tracking_data w"
  by (simp add: load_tracking_data_def)

lemma load_save [simp]: "load_tracking_data (save_tracking_data d w) = d"
  by (simp add: load_tracking_data_def save_tracking_data_def)

lemma trace_save [simp]: "trace (save_tracking_data d w) = trace w @ [Save d]"
  by (simp add: save_tracking_data_def)

section \<open>Adding a thread twice\<close>

text \<open>
  C4: when the key of \<open>(board, thread_id)\<close> is in the tracking file, \<open>add_thread\<close> only prints
  that the thread is already tracked: the file, and so the threads and \<open>next_id\<close> read from
  it, are as before, nothing is fetched and nothing is saved.
\<close>

theorem add_thread_already_tracked:
  assumes "map_of (threads (load_tracking_data w)) (board @ (py ''_'') @ thread_id) = Some thread_info"
  shows "add_thread board thread_id check_interval w
           = (Inr (), w\<lparr>trace := trace w @ [Print (AlreadyTracked board thread_id)]\<rparr>)
       \<and> load_tracking_data (snd (add_thread board thread_id check_interval w))
           = load_tracking_data w
       \<and> tracking_file (snd (add_thread board thread_id check_interval w)) = tracking_file w
       \<and> fetches (snd (add_thread board thread_id check_interval w)) = fetches w"
  using assms by (simp add: add_thread_def print_def emit_def load_tracking_data_def)

section \<open>The expiry sweep\<close>

lemma fold_delete_filter:
  "fold AList.delete ks xs = filter (\<lambda>p. fst p \<notin> set ks) xs"
proof (induction ks arbitrary: xs)
  case Nil
  show ?case by simp
next
  case (Cons k ks)
  have "AList.delete k xs = filter (\<lambda>p. fst p \<noteq> k) xs"
    by (simp add: AList.delete_eq case_prod_beta' eq_commute)
  then show ?case
    by (auto simp: Cons.IH intro: filter_cong)
qed

lemma distinct_keys_unique:
  assumes "distinct (map fst xs)" "p \<in> set xs" "q \<in> set xs" "fst p = fst q"
  shows "p = q"
  using assms by (metis eq_key_imp_eq_value prod.collapse)

lemma fold_delete_selected:
  assumes "distinct (map fst xs)"
  shows "fold AList.delete (map fst (filter P xs)) xs = filter (\<lambda>p. \<not> P p) xs"
proof -
  have "fst p \<notin> set (map fst (filter P xs)) \<longleftrightarrow> \<not> P p" if p: "p \<in> set xs" for p
  proof
    assume "fst p \<notin> set (map fst (filter P xs))"
    with p show "\<not> P p" by force
  next
    assume n: "\<not> P p"
    show "fst p \<notin> set (map fst (filter P xs))"
    proof
      assume "fst p \<in> set (map fst (filter P xs))"
      then obtain q where q: "q \<in> set xs" "P q" "fst q = fst p" by auto
      with p have "p = q" using distinct_keys_unique [OF assms, of p q] by simp
      with q n show False by simp
    qed
  qed
  then show ?thesis
    unfolding fold_delete_filter by (intro filter_cong) auto
qed

lemma stale_iff:
  "(\<lambda>(thread_key, thread_info). info_last_update thread_info < now - (24 * 60 * 60)) = stale now"
  by (auto simp: stale_def fun_eq_iff)

lemma cleanup_old_threads_eq:
  "cleanup_old_threads w =
     (if filter (stale (clock w (ticks w))) (threads (load_tracking_data w)) = []
      then w\<lparr>ticks := Suc (ticks w)\<rparr>
      else print (RemovedInactive
                   (length (filter (stale (clock w (ticks w))) (threads (load_tracking_data w)))))
             (save_tracking_data
                ((load_tracking_data w)\<lparr>threads :=
                   fold AList.delete
                     (map fst (filter (stale (clock w (ticks w))) (threads (load_tracking_data w))))
                     (threads (load_tracking_data w))\<rparr>)
                (w\<lparr>ticks := Suc (ticks w)\<rparr>)))"
  unfolding cleanup_old_threads_def time_time_def Let_def prod.case stale_iff
  by simp

text \<open>
  C6: the sweep keeps exactly the records that are not stale at the time it reads the clock,
  each as it was and in the same order, and leaves \<open>next_id\<close> alone. When no record is stale
  it has no effect; otherwise it saves the document once and prints the number of records
  removed.
\<close>

theorem cleanup_old_threads_removes_stale:
  assumes "distinct (map fst (threads (load_tracking_data w)))"
  shows "threads (load_tracking_data (cleanup_old_threads w))
           = filter (\<lambda>entry. \<not> stale (clock w (ticks w)) entry) (threads (load_tracking_data w))
       \<and> next_id (load_tracking_data (cleanup_old_threads w)) = next_id (load_tracking_data w)
       \<and> trace (cleanup_old_threads w)
           = trace w @
             (if filter (stale (clock w (ticks w))) (threads (load_tracking_data w)) = [] then []
              else [Save ((load_tracking_data w)\<lparr>threads :=
                       filter (\<lambda>entry. \<not> stale (clock w (ticks w)) entry)
                         (threads (load_tracking_data w))\<rparr>),
                    Print (RemovedInactive
                      (length (filter (stale (clock w (ticks w))) (threads (load_tracking_data w)))))])"
proof -
  let ?d = "load_tracking_data w"
  let ?now = "clock w (ticks w)"
  have del: "fold AList.delete (map fst (filter (stale ?now) (threads ?d))) (threads ?d)
               = filter (\<lambda>entry. \<not> stale ?now entry) (threads ?d)"
    using assms by (rule fold_delete_selected)
  show ?thesis
  proof (cases "filter (stale ?now) (threads ?d) = []")
    case True
    then have "filter (\<lambda>entry. \<not> stale ?now entry) (threads ?d) = threads ?d"
      by (simp add: filter_empty_conv)
    with True show ?thesis
      by (simp add: cleanup_old_threads_eq)
  next
    case False
    then show ?thesis
      by (simp add: cleanup_old_threads_eq del)
  qed
qed

section \<open>The example world\<close>

lemma load_world0: "load_tracking_data (world0 (Stored d) n t) = d"
  by (simp add: load_tracking_data_def world0_def)

lemma world0_fields:
  "tracking_file (world0 f n t) = f" "trace (world0 f n t) = []" "net (world0 f n t) = n"
  "fetches (world0 f n t) = 0" "clock (world0 f n t) = (\<lambda>k. t)" "ticks (world0 f n t) = 0"
  "notify_send (world0 f n t) = (\<lambda>k. Delivered)" "notifies (world0 f n t) = 0"
  "ctrl_c (world0 f n t) = (\<lambda>k. False)" "sleeps (world0 f n t) = 0"
  "stdin (world0 f n t) = (\<lambda>k. Answer True)" "inputs (world0 f n t) = 0"
  "unicode_digit (world0 f n t) = unicode_14"
  "fromtimestamp_error (world0 f n t) = (\<lambda>t. None)"
  "sleep_overflow (world0 f n t) = (\<lambda>secs. secs < - 9223372036 \<or> 9223372036 < secs)"
  by (simp_all add: world0_def)

section \<open>Evaluating the examples\<close>

lemmas eval_defs =
  run_def add_thread_def remove_thread_def cleanup_old_threads_def fetch_thread_data_def
  load_tracking_data_def save_tracking_data_def time_time_def time_sleep_def input_confirm_def
  emit_def print_def world0_def truthy_def get_thread_title_def Let_def
  send_notification_def monitor_cycle_def sleep_step_def monitor_thread_def
  add_and_monitor_def except_ValueError_def completed_def dispatch_def main_def
  list_threads_def board_rows_def example_data_def info_g_def info_a_def one_post_def

text \<open>C4 at the example file: \<^verbatim>\<open>/g/100\<close> is tracked already.\<close>

theorem add_thread_already_tracked_witness:
  "map_of (threads (load_tracking_data (world0 (Stored example_data) (\<lambda>k. Failure) 100000)))
     ((py ''g'') @ (py ''_'') @ (py ''100'')) = Some info_g
   \<and> add_thread (py ''g'') (py ''100'') 300 (world0 (Stored example_data) (\<lambda>k. Failure) 100000)
       = (Inr (), (world0 (Stored example_data) (\<lambda>k. Failure) 100000)
                    \<lparr>trace := [Print (AlreadyTracked (py ''g'') (py ''100''))]\<rparr>)"
proof -
  have k: "map_of (threads (load_tracking_data (world0 (Stored example_data) (\<lambda>k. Failure) 100000)))
     ((py ''g'') @ (py ''_'') @ (py ''100'')) = Some info_g"
    by (simp add: load_world0) (simp add: example_data_def)
  show ?thesis
    using k add_thread_already_tracked [OF k, of 300] by (simp add: world0_fields)
qed

text \<open>C6 at the example file: at time 100000 only the record of \<^verbatim>\<open>/a/200\<close> is stale.\<close>

theorem cleanup_old_threads_removes_stale_witness:
  "distinct (map fst (threads (load_tracking_data (world0 (Stored example_data) (\<lambda>k. Failure) 100000))))
   \<and> threads (load_tracking_data
        (cleanup_old_threads (world0 (Stored example_data) (\<lambda>k. Failure) 100000)))
       = [((py ''g_100''), info_g)]
   \<and> trace (cleanup_old_threads (world0 (Stored example_data) (\<lambda>k. Failure) 100000))
       = [Save \<lparr>threads = [((py ''g_100''), info_g)], next_id = 3\<rparr>, Print (RemovedInactive 1)]"
proof -
  have k: "distinct (map fst (threads (load_tracking_data (world0 (Stored example_data) (\<lambda>k. Failure) 100000))))"
    by (simp add: load_world0) (simp add: example_data_def)
  show ?thesis
    using k cleanup_old_threads_removes_stale [OF k]
    by (simp add: load_world0 world0_fields) (simp add: example_data_def stale_def info_g_def info_a_def)
qed

lemma emit_fields [simp]:
  "net (emit e w) = net w" "fetches (emit e w) = fetches w" "clock (emit e w) = clock w"
  "ticks (emit e w) = ticks w" "notify_send (emit e w) = notify_send w"
  "notifies (emit e w) = notifies w" "ctrl_c (emit e w) = ctrl_c w"
  "sleeps (emit e w) = sleeps w" "stdin (emit e w) = stdin w" "inputs (emit e w) = inputs w"
  "unicode_digit (emit e w) = unicode_digit w"
  "fromtimestamp_error (emit e w) = fromtimestamp_error w"
  "sleep_overflow (emit e w) = sleep_overflow w"
  by (simp_all add: emit_def)

lemma print_fields [simp]:
  "net (print m w) = net w" "fetches (print m w) = fetches w" "clock (print m w) = clock w"
  "ticks (print m w) = ticks w" "notify_send (print m w) = notify_send w"
  "notifies (print m w) = notifies w" "ctrl_c (print m w) = ctrl_c w"
  "sleeps (print m w) = sleeps w" "stdin (print m w) = stdin w" "inputs (print m w) = inputs w"
  "unicode_digit (print m w) = unicode_digit w"
  "fromtimestamp_error (print m w) = fromtimestamp_error w"
  "sleep_overflow (print m w) = sleep_overflow w"
  by (simp_all add: print_def)

section \<open>Allocation of tracking ids\<close>

lemma update_fresh: "map_of al k = None \<Longrightarrow> AList.update k v al = al @ [(k, v)]"
  by (induction al) (auto split: if_splits)

lemma tracked_ids_simps [simp]:
  "tracked_ids [] = []"
  "tracked_ids (xs @ ys) = tracked_ids xs @ tracked_ids ys"
  "tracked_ids (e # xs) = allocated e @ tracked_ids xs"
  by (simp_all add: tracked_ids_def)

lemma step_ok_same:
  assumes "trace w' = trace w @ evs" "tracked_ids evs = []"
    "load_tracking_data w' = load_tracking_data w"
  shows "step_ok w w'"
  unfolding step_ok_def using assms
  by (intro exI [of _ evs]) (auto intro: exI [of _ "\<lambda>_. True"])

lemma fetch_frame:
  "\<exists>evs. trace (snd (fetch_thread_data b t w)) = trace w @ evs \<and> tracked_ids evs = []
     \<and> tracking_file (snd (fetch_thread_data b t w)) = tracking_file w
     \<and> ticks (snd (fetch_thread_data b t w)) = ticks w
     \<and> clock (snd (fetch_thread_data b t w)) = clock w"
  by (auto simp: fetch_thread_data_def Let_def emit_def print_def split: response.splits)

lemma load_cong: "tracking_file w' = tracking_file w \<Longrightarrow> load_tracking_data w' = load_tracking_data w"
  by (simp add: load_tracking_data_def)

lemma add_thread_step: "step_ok w (snd (add_thread b t c w))"
proof (cases "map_of (threads (load_tracking_data w)) (b @ (py ''_'') @ t)")
  case (Some info)
  have "step_ok w (print (AlreadyTracked b t) w)"
    by (rule step_ok_same [where evs = "[Print (AlreadyTracked b t)]"]) simp_all
  with Some show ?thesis by (simp add: add_thread_def)
next
  case None
  obtain r w1 where f: "fetch_thread_data b t w = (r, w1)" by (cases "fetch_thread_data b t w")
  from fetch_frame [of b t w] f obtain evs where
    evs: "trace w1 = trace w @ evs" "tracked_ids evs = []" "tracking_file w1 = tracking_file w"
    by auto
  have l1: "load_tracking_data w1 = load_tracking_data w" using evs(3) by (rule load_cong)
  have raised: "step_ok w w1"
    by (rule step_ok_same [where evs = evs]) (simp_all add: evs l1)
  have absent: "step_ok w (print (CouldNotFetch b t) w1)"
    by (rule step_ok_same [where evs = "evs @ [Print (CouldNotFetch b t)]"])
       (simp_all add: evs l1)
  have added: "step_ok w
        (print (NowTracking b t ttl (next_id (load_tracking_data w)))
          (save_tracking_data
            ((load_tracking_data w)\<lparr>threads := AList.update (b @ (py ''_'') @ t)
                (info\<lparr>info_id := next_id (load_tracking_data w)\<rparr>)
                (threads (load_tracking_data w)),
               next_id := next_id (load_tracking_data w) + 1\<rparr>) w3))"
    if "trace w3 = trace w1" for ttl info w3
    unfolding step_ok_def using evs None that
    by (intro exI [of _ "evs @
          [Save ((load_tracking_data w)\<lparr>threads := AList.update (b @ (py ''_'') @ t)
                (info\<lparr>info_id := next_id (load_tracking_data w)\<rparr>)
                (threads (load_tracking_data w)),
               next_id := next_id (load_tracking_data w) + 1\<rparr>),
           Print (NowTracking b t ttl (next_id (load_tracking_data w)))]"])
       (simp add: update_fresh)
  show ?thesis
    using None raised absent
      added [of "w1\<lparr>ticks := Suc (Suc (ticks w1))\<rparr>" _
                "\<lparr>info_id = 0, info_board = b, info_thread_id = t, info_title = _,
                  info_last_post_no = _, info_last_update = clock w1 (ticks w1),
                  info_check_interval = c, info_added_time = clock w1 (Suc (ticks w1))\<rparr>"]
    by (auto simp: add_thread_def f Let_def time_time_def
             split: option.splits sum.splits)
qed


lemma step_ok_filter:
  assumes "trace w' = trace w @ evs" "tracked_ids evs = []"
    "next_id (load_tracking_data w') = next_id (load_tracking_data w)"
    "threads (load_tracking_data w') = filter P (threads (load_tracking_data w))"
  shows "step_ok w w'"
  unfolding step_ok_def using assms by (intro exI [of _ evs]) auto

lemma delete_filter: "AList.delete k xs = filter (\<lambda>p. fst p \<noteq> k) xs"
  by (simp add: AList.delete_eq case_prod_beta' eq_commute)

lemma remove_thread_step: "step_ok w (snd (remove_thread i f w))"
proof (cases "find (\<lambda>(thread_key, thread_info). info_id thread_info = i)
                (threads (load_tracking_data w))")
  case None
  have "step_ok w (print (NoThreadFound i) w)"
    by (rule step_ok_same [where evs = "[Print (NoThreadFound i)]"]) simp_all
  with None show ?thesis by (simp add: remove_thread_def)
next
  case (Some entry)
  obtain k info where entry: "entry = (k, info)" by (cases entry)
  define w1 where "w1 = (if f then w else
      (print (ConfirmPrompt (info_board info) (info_thread_id info) (info_title info)) w)
        \<lparr>inputs := Suc (inputs w)\<rparr>)"
  define evs where "evs = (if f then [] else
      [Print (ConfirmPrompt (info_board info) (info_thread_id info) (info_title info))])"
  have w1: "trace w1 = trace w @ evs" "tracked_ids evs = []"
    "load_tracking_data w1 = load_tracking_data w"
    by (auto simp: w1_def evs_def load_tracking_data_def print_def emit_def)
  have raised: "step_ok w w1"
    by (rule step_ok_same [where evs = evs]) (simp_all add: w1)
  have cancel: "step_ok w (print Cancelled w1)"
    by (rule step_ok_same [where evs = "evs @ [Print Cancelled]"]) (simp_all add: w1)
  have removed: "step_ok w (print (StoppedTracking i)
      (save_tracking_data ((load_tracking_data w)\<lparr>threads :=
          AList.delete k (threads (load_tracking_data w))\<rparr>) w1))"
    by (rule step_ok_filter [where evs = "evs @ [Save ((load_tracking_data w)\<lparr>threads :=
          AList.delete k (threads (load_tracking_data w))\<rparr>), Print (StoppedTracking i)]"
          and P = "\<lambda>p. fst p \<noteq> k"])
       (simp_all add: w1 delete_filter)
  show ?thesis
    using raised cancel removed
    by (auto simp: remove_thread_def Some entry Let_def input_confirm_def w1_def
             split: typed.splits)
qed

lemma cleanup_old_threads_step: "step_ok w (cleanup_old_threads w)"
proof (cases "filter (stale (clock w (ticks w))) (threads (load_tracking_data w)) = []")
  case True
  have "step_ok w (w\<lparr>ticks := Suc (ticks w)\<rparr>)"
    by (rule step_ok_same [where evs = "[]"]) simp_all
  with True show ?thesis by (simp add: cleanup_old_threads_eq)
next
  case False
  let ?gone = "filter (stale (clock w (ticks w))) (threads (load_tracking_data w))"
  let ?d = "(load_tracking_data w)\<lparr>threads :=
              fold AList.delete (map fst ?gone) (threads (load_tracking_data w))\<rparr>"
  have "step_ok w (print (RemovedInactive (length ?gone))
          (save_tracking_data ?d (w\<lparr>ticks := Suc (ticks w)\<rparr>)))"
    by (rule step_ok_filter [where evs = "[Save ?d, Print (RemovedInactive (length ?gone))]"
          and P = "\<lambda>p. fst p \<notin> set (map fst ?gone)"])
       (simp_all add: fold_delete_filter)
  with False show ?thesis by (simp add: cleanup_old_threads_eq)
qed

lemma apply_operation_step: "step_ok w (apply_operation op w)"
  by (cases op) (simp_all add: add_thread_step remove_thread_step cleanup_old_threads_step)


lemma step_ok_below:
  assumes "step_ok w w'" "ids_below_next (load_tracking_data w)"
  shows "ids_below_next (load_tracking_data w')"
  using assms unfolding step_ok_def ids_below_next_def by fastforce

lemma step_ok_distinct:
  assumes "step_ok w w'" "ids_below_next (load_tracking_data w)"
    "ids_distinct (load_tracking_data w)"
  shows "ids_distinct (load_tracking_data w')"
  using assms unfolding step_ok_def ids_below_next_def ids_distinct_def
  by (fastforce simp: distinct_map_filter)

lemma step_ok_next_id:
  assumes "step_ok w w'"
  shows "next_id (load_tracking_data w) \<le> next_id (load_tracking_data w')"
  using assms unfolding step_ok_def by auto

lemma step_ok_ids:
  assumes "step_ok w w'"
  shows "tracked_ids (trace w') = tracked_ids (trace w) @
           [next_id (load_tracking_data w) .. next_id (load_tracking_data w') - 1]"
  using assms unfolding step_ok_def by (auto simp: upto_rec1)

lemma step_ok_entries:
  assumes "step_ok w w'" "entry \<in> set (threads (load_tracking_data w'))"
  shows "entry \<in> set (threads (load_tracking_data w))
    \<or> (info_id (snd entry) = next_id (load_tracking_data w)
        \<and> next_id (load_tracking_data w') = next_id (load_tracking_data w) + 1)"
  using assms unfolding step_ok_def by auto

lemma upto_append_next:
  fixes a b c :: int
  assumes "a \<le> b" "b \<le> c"
  shows "[a..b - 1] @ [b..c - 1] = [a..c - 1]"
proof (cases "a = b")
  case True
  then show ?thesis by simp
next
  case False
  with assms have "a \<le> b - 1" "b - 1 \<le> c - 1" by simp_all
  from upto_split2 [OF this] show ?thesis by simp
qed

lemma run_Cons: "run (op # ops) w = run ops (apply_operation op w)"
  by (simp add: run_def)

text \<open>
  C3: from a registry whose \<open>next_id\<close> exceeds every id in it, after any sequence of add,
  remove and expire operations \<open>next_id\<close> still exceeds every id and has not decreased; the
  ids handed out by the successful adds, in order, are exactly the integers from the first
  \<open>next_id\<close> up to the last one (each add takes the current \<open>next_id\<close> and increments it,
  so they strictly increase and a freed id is never handed out again); every record in the
  registry was there at the start or carries one of these ids; and ids that were distinct at
  the start are still distinct.
\<close>

theorem tracking_ids_never_reused:
  assumes "ids_below_next (load_tracking_data w)"
  shows "ids_below_next (load_tracking_data (run ops w))
    \<and> next_id (load_tracking_data w) \<le> next_id (load_tracking_data (run ops w))
    \<and> tracked_ids (trace (run ops w))
        = tracked_ids (trace w) @
          [next_id (load_tracking_data w) .. next_id (load_tracking_data (run ops w)) - 1]
    \<and> (\<forall>entry\<in>set (threads (load_tracking_data (run ops w))).
          entry \<in> set (threads (load_tracking_data w))
          \<or> (next_id (load_tracking_data w) \<le> info_id (snd entry)
              \<and> info_id (snd entry) < next_id (load_tracking_data (run ops w))))
    \<and> (ids_distinct (load_tracking_data w) \<longrightarrow> ids_distinct (load_tracking_data (run ops w)))"
  using assms
proof (induction ops arbitrary: w)
  case Nil
  then show ?case by (simp add: run_def)
next
  case (Cons op ops)
  let ?w1 = "apply_operation op w"
  let ?w2 = "run ops ?w1"
  let ?n = "\<lambda>w. next_id (load_tracking_data w)"
  have st: "step_ok w ?w1" by (rule apply_operation_step)
  have b1: "ids_below_next (load_tracking_data ?w1)"
    using st Cons.prems by (rule step_ok_below)
  note IH = Cons.IH [OF b1]
  have n01: "?n w \<le> ?n ?w1" using st by (rule step_ok_next_id)
  have n12: "?n ?w1 \<le> ?n ?w2" using IH by simp
  have ids: "tracked_ids (trace ?w2) = tracked_ids (trace w) @ [?n w .. ?n ?w2 - 1]"
  proof -
    have a: "tracked_ids (trace ?w2)
            = tracked_ids (trace w) @ ([?n w .. ?n ?w1 - 1] @ [?n ?w1 .. ?n ?w2 - 1])"
      using IH step_ok_ids [OF st] by simp
    have b: "[?n w .. ?n ?w1 - 1] @ [?n ?w1 .. ?n ?w2 - 1] = [?n w .. ?n ?w2 - 1]"
      using n01 n12 by (rule upto_append_next)
    show ?thesis unfolding a b ..
  qed
  have ent: "entry \<in> set (threads (load_tracking_data w))
             \<or> (?n w \<le> info_id (snd entry) \<and> info_id (snd entry) < ?n ?w2)"
    if "entry \<in> set (threads (load_tracking_data ?w2))" for entry
  proof -
    from IH that have "entry \<in> set (threads (load_tracking_data ?w1))
        \<or> (?n ?w1 \<le> info_id (snd entry) \<and> info_id (snd entry) < ?n ?w2)"
      by blast
    then show ?thesis
      using step_ok_entries [OF st, of entry] n01 n12 by auto
  qed
  have dis: "ids_distinct (load_tracking_data ?w2)" if "ids_distinct (load_tracking_data w)"
    using IH step_ok_distinct [OF st Cons.prems that] by simp
  show ?case
    unfolding run_Cons using IH n01 n12 ids ent dis by (auto simp del: upto.simps)
qed


text \<open>
  C3 at the example file: a thread is added (id 3) and removed again, the next thread gets
  id 4.
\<close>

theorem tracking_ids_never_reused_witness:
  "ids_below_next (load_tracking_data (world0 (Stored example_data) one_post 100000))
   \<and> tracked_ids (trace (run [Add (py ''b'') (py ''300'') 60, Remove 3 True, Add (py ''c'') (py ''400'') 60]
        (world0 (Stored example_data) one_post 100000))) = [3, 4]
   \<and> map (\<lambda>entry. info_id (snd entry))
        (threads (load_tracking_data
          (run [Add (py ''b'') (py ''300'') 60, Remove 3 True, Add (py ''c'') (py ''400'') 60]
            (world0 (Stored example_data) one_post 100000)))) = [1, 2, 4]
   \<and> next_id (load_tracking_data
        (run [Add (py ''b'') (py ''300'') 60, Remove 3 True, Add (py ''c'') (py ''400'') 60]
          (world0 (Stored example_data) one_post 100000))) = 5"
proof -
  let ?w = "world0 (Stored example_data) one_post 100000"
  let ?ops = "[Add (py ''b'') (py ''300'') 60, Remove 3 True, Add (py ''c'') (py ''400'') 60]"
  have h: "ids_below_next (load_tracking_data ?w)"
    by (simp add: load_world0 ids_below_next_def) (simp add: example_data_def info_g_def info_a_def)
  have d: "load_tracking_data (run ?ops ?w) =
     \<lparr>threads = [((py ''g_100''), info_g), ((py ''a_200''), info_a),
         ((py ''c_400''), \<lparr>info_id = 4, info_board = (py ''c''), info_thread_id = (py ''400''),
             info_title = (py ''Hi''), info_last_post_no = 7, info_last_update = 100000,
             info_check_interval = 60, info_added_time = 100000\<rparr>)],
       next_id = 5\<rparr>"
    by (simp add: eval_defs)
  have t: "tracked_ids (trace ?w) = []"
    by (simp add: world0_fields)
  from tracking_ids_never_reused [OF h, of ?ops]
  have "tracked_ids (trace (run ?ops ?w)) = tracked_ids (trace ?w) @ [3..5 - 1]"
    unfolding d by (simp add: load_world0 example_data_def)
  then have "tracked_ids (trace (run ?ops ?w)) = [3, 4]"
    by (simp add: t)
  with h show ?thesis
    unfolding d by (simp add: info_g_def info_a_def)
qed

section \<open>A poll cycle that finds new posts\<close>

lemma notifications_simps [simp]:
  "notifications [] = []"
  "notifications (xs @ ys) = notifications xs @ notifications ys"
  "notifications (e # xs) = notified e @ notifications xs"
  by (simp_all add: notifications_def)

lemma send_notification_eq:
  assumes "accepted board thread_id p" "\<forall>e. notify_send w (notifies w) \<noteq> DeliveryRaises e"
  shows "send_notification board thread_id
           (case com p of None \<Rightarrow> (py ''No content'') | Some c \<Rightarrow> c) w
     = (Inr (),
        w\<lparr>trace := trace w @
             Notify (fst (payload board thread_id p)) (snd (payload board thread_id p))
             # (if notify_send w (notifies w) = NotDelivered
                then [Print (FailedNotification (fst (payload board thread_id p))
                                                (snd (payload board thread_id p)))]
                else []),
           notifies := Suc (notifies w)\<rparr>)"
  using assms
  by (cases "notify_send w (notifies w)")
     (simp_all add: send_notification_def payload_def accepted_def Let_def emit_def print_def)

lemma notify_new_posts_eq:
  assumes "\<forall>p\<in>set ps. no p \<noteq> None"
    and "\<forall>p\<in>set ps. cursor < the (no p) \<longrightarrow> accepted board thread_id p"
    and "notify_send w = ns" "\<forall>k e. ns k \<noteq> DeliveryRaises e"
  shows "\<exists>pre n. notify_new_posts board thread_id cursor ps w
             = (Inr (), w\<lparr>trace := trace w @ pre, notifies := notifies w + n\<rparr>)
           \<and> notifications pre
               = map (payload board thread_id) (filter (\<lambda>p. cursor < the (no p)) ps)
           \<and> (\<forall>e\<in>set pre. notify_event e)"
  using assms
proof (induction ps arbitrary: w)
  case Nil
  show ?case by (intro exI [of _ "[]"] exI [of _ 0]) simp
next
  case (Cons p ps)
  then obtain n where n: "no p = Some n" by auto
  let ?evs = "Notify (fst (payload board thread_id p)) (snd (payload board thread_id p))
            # (if notify_send w (notifies w) = NotDelivered
               then [Print (FailedNotification (fst (payload board thread_id p))
                                               (snd (payload board thread_id p)))]
               else [])"
  let ?w1 = "if cursor < n
             then w\<lparr>trace := trace w @ ?evs, notifies := Suc (notifies w)\<rparr>
             else w"
  have s: "send_notification board thread_id
             (case com p of None \<Rightarrow> (py ''No content'') | Some c \<Rightarrow> c) w = (Inr (), ?w1)"
    if "cursor < n"
    using that n Cons.prems(2,3,4) by (simp add: send_notification_eq)
  have step: "notify_new_posts board thread_id cursor (p # ps) w
                = notify_new_posts board thread_id cursor ps ?w1"
    using n s by simp
  have "\<forall>p\<in>set ps. no p \<noteq> None"
    "\<forall>p\<in>set ps. cursor < the (no p) \<longrightarrow> accepted board thread_id p"
    "notify_send ?w1 = ns"
    using Cons.prems by simp_all
  from Cons.IH [OF this Cons.prems(4)] obtain pre k where
    r: "notify_new_posts board thread_id cursor ps ?w1
          = (Inr (), ?w1\<lparr>trace := trace ?w1 @ pre, notifies := notifies ?w1 + k\<rparr>)"
    and p: "notifications pre = map (payload board thread_id) (filter (\<lambda>p. cursor < the (no p)) ps)"
    and e: "\<forall>e\<in>set pre. notify_event e"
    by blast
  show ?case
  proof (cases "cursor < n")
    case True
    show ?thesis
      unfolding step using r p e True n
      by (intro exI [of _ "?evs @ pre"] exI [of _ "Suc k"]) simp
  next
    case False
    show ?thesis
      unfolding step using r p e False n
      by (intro exI [of _ pre] exI [of _ k]) simp
  qed
qed

lemma sorted_le_last:
  fixes xs :: "int list"
  shows "sorted xs \<Longrightarrow> x \<in> set xs \<Longrightarrow> x \<le> last xs"
  by (induction xs) auto

lemma sorted_last_Max:
  fixes xs :: "int list"
  assumes "sorted xs" "xs \<noteq> []"
  shows "last xs = Max (set xs)"
proof -
  have "Max (set xs) = last xs"
  proof (rule Max_eqI)
    show "finite (set xs)" by simp
    show "y \<le> last xs" if "y \<in> set xs" for y using assms(1) that by (rule sorted_le_last)
    show "last xs \<in> set xs" using assms(2) by simp
  qed
  then show ?thesis by simp
qed


lemma save_fields [simp]:
  "tracking_file (save_tracking_data d w) = Stored d"
  "net (save_tracking_data d w) = net w" "fetches (save_tracking_data d w) = fetches w"
  "clock (save_tracking_data d w) = clock w" "ticks (save_tracking_data d w) = ticks w"
  "notify_send (save_tracking_data d w) = notify_send w"
  "notifies (save_tracking_data d w) = notifies w" "ctrl_c (save_tracking_data d w) = ctrl_c w"
  "sleeps (save_tracking_data d w) = sleeps w" "stdin (save_tracking_data d w) = stdin w"
  "inputs (save_tracking_data d w) = inputs w"
  "unicode_digit (save_tracking_data d w) = unicode_digit w"
  "fromtimestamp_error (save_tracking_data d w) = fromtimestamp_error w"
  "sleep_overflow (save_tracking_data d w) = sleep_overflow w"
  by (simp_all add: save_tracking_data_def)

lemma sleep_step_eq:
  "sleep_step c st w =
     (if sleep_overflow w c then (Raise OverflowError, st, w)
      else if c < 0 then (Raise (ValueError (py ''sleep length must be non-negative'')), st, w)
      else (if ctrl_c w (sleeps w) then Raise KeyboardInterrupt else Continue, st,
            w\<lparr>trace := trace w @ [Sleep c], sleeps := Suc (sleeps w)\<rparr>))"
  by (simp add: sleep_step_def time_sleep_def emit_def Let_def)

lemma monitor_cycle_update:
  assumes "fetch_thread_data board thread_id w = (Inr (Some d), w1)"
    and "posts d = Some ps" "ps \<noteq> []" "no (last ps) = Some latest"
    and "info_last_post_no thread_info < latest"
    and "notify_new_posts board thread_id (info_last_post_no thread_info) (rev ps) w1
           = (Inr (), w2)"
  shows "monitor_cycle board thread_id check_interval (data, thread_info) w
     = sleep_step check_interval
         (data\<lparr>threads := AList.update (board @ (py ''_'') @ thread_id)
              (thread_info\<lparr>info_last_post_no := latest,
                            info_last_update := clock w2 (ticks w2)\<rparr>) (threads data)\<rparr>,
          thread_info\<lparr>info_last_post_no := latest, info_last_update := clock w2 (ticks w2)\<rparr>)
         (print (NewPosts board thread_id)
            (save_tracking_data
               (data\<lparr>threads := AList.update (board @ (py ''_'') @ thread_id)
                  (thread_info\<lparr>info_last_post_no := latest,
                                info_last_update := clock w2 (ticks w2)\<rparr>) (threads data)\<rparr>)
               (w2\<lparr>ticks := Suc (ticks w2)\<rparr>)))"
proof -
  have t: "truthy (Some d)" using assms(2) by (simp add: truthy_def)
  show ?thesis
    using assms(3,5) by (simp add: monitor_cycle_def assms(1,2,4,6) t time_time_def Let_def)
qed

text \<open>
  When every new post is accepted by the adapter and no run of it raises: the adapter is
  called for the posts above the old cursor, once each and for no other post (newest
  first); nothing else happens before the save but reports of failed deliveries. The
  cursor becomes the highest number and \<open>last_update\<close> the time read from the clock; the
  updated document is saved once, and the save precedes the suspension of the cycle.
\<close>

lemma monitor_cycle_delivers:
  assumes run: "monitor_cycle board thread_id check_interval (data, thread_info) w
                  = (fl, (data', thread_info'), w')"
    and body: "net w (fetches w) = Body d"
    and ps: "posts d = Some ps" "ps \<noteq> []"
    and nos: "\<forall>p\<in>set ps. no p \<noteq> None"
    and asc: "sorted (map (\<lambda>p. the (no p)) ps)"
    and new: "info_last_post_no thread_info < Max (set (map (\<lambda>p. the (no p)) ps))"
    and acc: "\<forall>p\<in>set ps. info_last_post_no thread_info < the (no p)
                \<longrightarrow> accepted board thread_id p"
    and del: "\<forall>k e. notify_send w k \<noteq> DeliveryRaises e"
  shows "thread_info' = thread_info\<lparr>info_last_post_no := Max (set (map (\<lambda>p. the (no p)) ps)),
                                    info_last_update := clock w (ticks w)\<rparr>
    \<and> data' = data\<lparr>threads := AList.update (board @ (py ''_'') @ thread_id) thread_info' (threads data)\<rparr>
    \<and> tracking_file w' = Stored data'
    \<and> (\<exists>pre. trace w' = trace w
             @ [Fetch ((py ''https://a.4cdn.org/'') @ board @ (py ''/thread/'') @ thread_id @ (py ''.json''))]
             @ pre
             @ [Save data', Print (NewPosts board thread_id)]
             @ (if sleep_overflow w check_interval \<or> check_interval < 0 then []
                else [Sleep check_interval])
          \<and> notifications pre
              = map (payload board thread_id)
                  (filter (\<lambda>p. info_last_post_no thread_info < the (no p)) (rev ps))
          \<and> (\<forall>e\<in>set pre. notify_event e))
    \<and> fl = (if sleep_overflow w check_interval then Raise OverflowError
             else if check_interval < 0
             then Raise (ValueError (py ''sleep length must be non-negative''))
             else if ctrl_c w (sleeps w) then Raise KeyboardInterrupt else Continue)"
proof -
  let ?url = "(py ''https://a.4cdn.org/'') @ board @ (py ''/thread/'') @ thread_id @ (py ''.json'')"
  let ?w1 = "emit (Fetch ?url) (w\<lparr>fetches := Suc (fetches w)\<rparr>)"
  let ?cursor = "info_last_post_no thread_info"
  let ?latest = "Max (set (map (\<lambda>p. the (no p)) ps))"
  have f: "fetch_thread_data board thread_id w = (Inr (Some d), ?w1)"
    by (simp add: fetch_thread_data_def body Let_def)
  have "last (map (\<lambda>p. the (no p)) ps) = ?latest"
    using asc ps(2) by (intro sorted_last_Max) simp_all
  then have "the (no (last ps)) = ?latest" using ps(2) by (simp add: last_map)
  moreover have "no (last ps) \<noteq> None" using nos ps(2) by simp
  ultimately have l: "no (last ps) = Some ?latest" by auto
  have h: "\<forall>p\<in>set (rev ps). no p \<noteq> None"
    "\<forall>p\<in>set (rev ps). ?cursor < the (no p) \<longrightarrow> accepted board thread_id p"
    "notify_send ?w1 = notify_send w"
    using nos acc by simp_all
  from notify_new_posts_eq [OF h del] obtain pre n where
    r: "notify_new_posts board thread_id ?cursor (rev ps) ?w1
          = (Inr (), ?w1\<lparr>trace := trace ?w1 @ pre, notifies := notifies ?w1 + n\<rparr>)"
    and p: "notifications pre
              = map (payload board thread_id) (filter (\<lambda>p. ?cursor < the (no p)) (rev ps))"
    and e: "\<forall>e\<in>set pre. notify_event e"
    by blast
  let ?info = "thread_info\<lparr>info_last_post_no := ?latest, info_last_update := clock w (ticks w)\<rparr>"
  let ?data = "data\<lparr>threads := AList.update (board @ (py ''_'') @ thread_id) ?info (threads data)\<rparr>"
  let ?w2 = "?w1\<lparr>trace := trace ?w1 @ pre, notifies := notifies ?w1 + n\<rparr>"
  let ?w4 = "print (NewPosts board thread_id)
               (save_tracking_data ?data (?w2\<lparr>ticks := Suc (ticks ?w2)\<rparr>))"
  have ck: "clock ?w2 (ticks ?w2) = clock w (ticks w)" by simp
  have c: "monitor_cycle board thread_id check_interval (data, thread_info) w
             = sleep_step check_interval (?data, ?info) ?w4"
    using monitor_cycle_update [OF f ps l new r, of check_interval data] unfolding ck .
  have tr: "trace ?w4 = trace w @ [Fetch ?url] @ pre @ [Save ?data, Print (NewPosts board thread_id)]"
    by simp
  have fi: "tracking_file ?w4 = Stored ?data"
    by simp
  from run [unfolded c sleep_step_eq]
  have res: "thread_info' = ?info" "data' = ?data"
    "fl = (if sleep_overflow w check_interval then Raise OverflowError
             else if check_interval < 0
             then Raise (ValueError (py ''sleep length must be non-negative''))
             else if ctrl_c w (sleeps w) then Raise KeyboardInterrupt else Continue)"
    "w' = (if sleep_overflow w check_interval \<or> check_interval < 0 then ?w4
           else ?w4\<lparr>trace := trace ?w4 @ [Sleep check_interval], sleeps := Suc (sleeps ?w4)\<rparr>)"
    by (auto split: if_splits)
  have tr': "trace w' = trace w @ [Fetch ?url] @ pre
               @ [Save data', Print (NewPosts board thread_id)]
               @ (if sleep_overflow w check_interval \<or> check_interval < 0 then []
                  else [Sleep check_interval])"
    unfolding res(4) res(2) using tr by simp
  have fi': "tracking_file w' = Stored data'"
    unfolding res(4) res(2) using fi by simp
  show ?thesis
    using res(1,2,3) fi' tr' p e by blast
qed

text \<open>An example: the cursor is 105 and the snapshot has the posts 104, 106 and 107.\<close>

lemma monitor_cycle_three_posts:
  "monitor_cycle (py ''g'') (py ''100'') 300 (example_data, info_g)
     (world0 (Stored example_data) (\<lambda>k. Body three_posts) 100000)
   = (Continue,
      (\<lparr>threads = [(py ''g_100'', info_g\<lparr>info_last_post_no := 107,
                                            info_last_update := 100000\<rparr>),
                    (py ''a_200'', info_a)],
        next_id = 3\<rparr>,
       info_g\<lparr>info_last_post_no := 107, info_last_update := 100000\<rparr>),
      (world0 (Stored example_data) (\<lambda>k. Body three_posts) 100000)
        \<lparr>tracking_file :=
           Stored \<lparr>threads = [(py ''g_100'', info_g\<lparr>info_last_post_no := 107,
                                                      info_last_update := 100000\<rparr>),
                              (py ''a_200'', info_a)],
                   next_id = 3\<rparr>,
         trace :=
           [Fetch (py ''https://a.4cdn.org/g/thread/100.json''),
            Notify (py ''/g/ - 100'') (py ''No content''),
            Notify (py ''/g/ - 100'') (py ''second''),
            Save \<lparr>threads = [(py ''g_100'', info_g\<lparr>info_last_post_no := 107,
                                                    info_last_update := 100000\<rparr>),
                             (py ''a_200'', info_a)],
                  next_id = 3\<rparr>,
            Print (NewPosts (py ''g'') (py ''100'')),
            Sleep 300],
         fetches := 1, ticks := 1, notifies := 2, sleeps := 1\<rparr>)"
  by (simp add: eval_defs three_posts_def)

text \<open>
  C2 fails on the code: post 106 is new and its comment holds the character NUL.
  \<^verbatim>\<open>subprocess.run\<close> refuses it with \<^verbatim>\<open>ValueError\<close>, which \<^verbatim>\<open>send_notification\<close> does not
  catch. The cycle has notified post 107 and ends there: the cursor stays at 105, post
  106 is not notified, nothing is saved and the loop does not suspend.
\<close>

theorem monitor_cycle_nul_body_aborts:
  "monitor_cycle (py ''g'') (py ''100'') 300 (example_data, info_g)
     (world0 (Stored example_data) (\<lambda>k. Body nul_posts) 100000)
   = (Raise (ValueError (py ''embedded null byte'')),
      (example_data, info_g),
      (world0 (Stored example_data) (\<lambda>k. Body nul_posts) 100000)
        \<lparr>trace := [Fetch (py ''https://a.4cdn.org/g/thread/100.json''),
                   Notify (py ''/g/ - 100'') (py ''No content'')],
         fetches := 1, notifies := 1\<rparr>)"
  by (simp add: eval_defs nul_posts_def)

section \<open>What the operations append to the trace\<close>

lemma appended_refl: "appended P w w"
  by (simp add: appended_def)

lemma appended_same_trace: "appended P w w1 \<Longrightarrow> trace w2 = trace w1 \<Longrightarrow> appended P w w2"
  by (simp add: appended_def)

lemma appended_emit: "appended P w w1 \<Longrightarrow> P e \<Longrightarrow> appended P w (emit e w1)"
  by (auto simp: appended_def)

lemma appended_print: "appended P w w1 \<Longrightarrow> P (Print m) \<Longrightarrow> appended P w (print m w1)"
  by (simp add: print_def appended_emit)

lemma appended_save: "appended P w w1 \<Longrightarrow> P (Save d) \<Longrightarrow> appended P w (save_tracking_data d w1)"
  by (auto simp: appended_def)

lemma appended_fields:
  "appended P w w1 \<Longrightarrow> appended P w (w1\<lparr>inputs := i\<rparr>)"
  "appended P w w1 \<Longrightarrow> appended P w (w1\<lparr>ticks := k\<rparr>)"
  "appended P w w1 \<Longrightarrow> appended P w (w1\<lparr>fetches := f\<rparr>)"
  "appended P w w1 \<Longrightarrow> appended P w (w1\<lparr>notifies := n\<rparr>)"
  "appended P w w1 \<Longrightarrow> appended P w (w1\<lparr>sleeps := s\<rparr>)"
  by (simp_all add: appended_def)

lemma appended_mono: "appended P w w1 \<Longrightarrow> (\<And>e. P e \<Longrightarrow> Q e) \<Longrightarrow> appended Q w w1"
  by (auto simp: appended_def list_all_iff)

lemma appended_trans: "appended P w w1 \<Longrightarrow> appended P w1 w2 \<Longrightarrow> appended P w w2"
  by (auto simp: appended_def)

lemma not_sleep_cases [simp]:
  "not_sleep (Fetch u)" "not_sleep (Notify t c)" "not_sleep (Save d)" "not_sleep (Print m)"
  by simp_all

lemma fetch_appended:
  assumes "fetch_thread_data b t w1 = (r, w2)" "appended P w w1" "\<And>e. not_sleep e \<Longrightarrow> P e"
  shows "appended P w w2"
  using assms
  by (auto simp: fetch_thread_data_def Let_def split: response.splits if_splits
           intro!: appended_print appended_emit
           intro!: appended_fields)

lemma send_notification_appended:
  assumes "send_notification b t c w1 = (r, w2)" "appended P w w1" "\<And>e. not_sleep e \<Longrightarrow> P e"
  shows "appended P w w2"
  using assms
  by (auto simp: send_notification_def Let_def split: if_splits delivery.splits
           intro!: appended_print appended_emit intro!: appended_fields)

lemma notify_new_posts_appended:
  assumes "notify_new_posts b t cur ps w1 = (r, w2)" "appended P w w1" "\<And>e. not_sleep e \<Longrightarrow> P e"
  shows "appended P w w2"
  using assms
proof (induction ps arbitrary: w1)
  case Nil
  then show ?case by simp
next
  case (Cons p ps)
  show ?case
  proof (cases "no p")
    case None
    with Cons.prems show ?thesis by simp
  next
    case (Some n)
    show ?thesis
    proof (cases "cur < n")
      case False
      with Cons.prems(1) Some have "notify_new_posts b t cur ps w1 = (r, w2)" by simp
      then show ?thesis using Cons.prems(2,3) by (rule Cons.IH)
    next
      case True
      obtain r1 w3 where
        sn: "send_notification b t (case com p of None \<Rightarrow> (py ''No content'') | Some c \<Rightarrow> c) w1
               = (r1, w3)"
        by (cases "send_notification b t
                     (case com p of None \<Rightarrow> (py ''No content'') | Some c \<Rightarrow> c) w1")
      have a: "appended P w w3" using sn Cons.prems(2,3) by (rule send_notification_appended)
      show ?thesis
      proof (cases r1)
        case (Inl e)
        with Cons.prems(1) Some True sn have "w2 = w3" by simp
        with a show ?thesis by simp
      next
        case (Inr u)
        with Cons.prems(1) Some True sn have "notify_new_posts b t cur ps w3 = (r, w2)" by simp
        then show ?thesis using a Cons.prems(3) by (rule Cons.IH)
      qed
    qed
  qed
qed

lemma add_thread_appended:
  assumes "add_thread b t c w1 = (r, w2)" "appended P w w1" "\<And>e. not_sleep e \<Longrightarrow> P e"
  shows "appended P w w2"
proof -
  obtain r1 w3 where f: "fetch_thread_data b t w1 = (r1, w3)" by (cases "fetch_thread_data b t w1")
  have a: "appended P w w3" using f assms(2,3) by (rule fetch_appended)
  show ?thesis
    using assms(1) assms(2) a assms(3)
    by (auto simp: add_thread_def f Let_def time_time_def
             split: if_splits option.splits sum.splits
             intro!: appended_print appended_save
             intro!: appended_fields)
qed

lemma print_rows_appended:
  assumes "print_rows rows w1 = (r, w2)" "appended P w w1" "\<And>e. not_sleep e \<Longrightarrow> P e"
  shows "appended P w w2"
  using assms
proof (induction rows arbitrary: w1)
  case Nil
  then show ?case by simp
next
  case (Cons thread rows)
  show ?case
  proof (cases "fromtimestamp_error w1 (info_last_update thread)")
    case (Some e)
    with Cons.prems show ?thesis by simp
  next
    case None
    let ?w = "print (ThreadLine (info_id thread)
                (if length (info_title thread) > 20
                 then take 20 (info_title thread) @ (py ''...'')
                 else info_title thread)) w1"
    have "print_rows rows ?w = (r, w2)" using Cons.prems(1) None by (simp add: Let_def)
    moreover have "appended P w ?w" using Cons.prems(2,3) by (intro appended_print) simp_all
    ultimately show ?thesis using Cons.prems(3) by (rule Cons.IH)
  qed
qed

lemma print_boards_appended:
  assumes "print_boards boards ts w1 = (r, w2)" "appended P w w1" "\<And>e. not_sleep e \<Longrightarrow> P e"
  shows "appended P w w2"
  using assms
proof (induction boards arbitrary: w1)
  case Nil
  then show ?case by simp
next
  case (Cons board boards)
  obtain r1 w3 where
    pr: "print_rows (board_rows board ts) (print (BoardHeader board) w1) = (r1, w3)"
    by (cases "print_rows (board_rows board ts) (print (BoardHeader board) w1)")
  have "appended P w (print (BoardHeader board) w1)"
    using Cons.prems(2,3) by (intro appended_print) simp_all
  with pr have a: "appended P w w3" using Cons.prems(3) by (rule print_rows_appended)
  show ?case
  proof (cases r1)
    case (Inl e)
    with Cons.prems(1) pr have "w2 = w3" by simp
    with a show ?thesis by simp
  next
    case (Inr u)
    with Cons.prems(1) pr have "print_boards boards ts w3 = (r, w2)" by simp
    then show ?thesis using a Cons.prems(3) by (rule Cons.IH)
  qed
qed

lemma list_threads_appended:
  assumes "list_threads w1 = (r, w2)" "appended P w w1" "\<And>e. not_sleep e \<Longrightarrow> P e"
  shows "appended P w w2"
proof (cases "threads (load_tracking_data w1) = []")
  case True
  with assms show ?thesis
    by (auto simp: list_threads_def Let_def intro!: appended_print)
next
  case False
  with assms(1) have "print_boards
      (sort_key (map codepoint)
         (remdups (map (\<lambda>(thread_key, thread_info). info_board thread_info)
            (threads (load_tracking_data w1)))))
      (threads (load_tracking_data w1)) w1 = (r, w2)"
    by (simp add: list_threads_def Let_def)
  then show ?thesis using assms(2,3) by (rule print_boards_appended)
qed

lemma remove_thread_appended:
  assumes "remove_thread i f w1 = (r, w2)" "appended P w w1" "\<And>e. not_sleep e \<Longrightarrow> P e"
  shows "appended P w w2"
  using assms
  by (auto simp: remove_thread_def Let_def input_confirm_def
           split: option.splits prod.splits if_splits typed.splits sum.splits
           intro!: appended_print appended_save intro!: appended_fields)

lemma cleanup_old_threads_appended:
  assumes "appended P w w1" "\<And>e. not_sleep e \<Longrightarrow> P e"
  shows "appended P w (cleanup_old_threads w1)"
  using assms
  by (auto simp: cleanup_old_threads_eq intro!: appended_print appended_save
           intro!: appended_fields)


lemma not_sleep_sleeps_for: "not_sleep e \<Longrightarrow> sleeps_for c e"
  by (cases e) (simp_all add: sleeps_for_def)

lemma sleep_step_appended:
  assumes "sleep_step c st w1 = (fl, st', w2)" "appended (sleeps_for c) w w1"
  shows "appended (sleeps_for c) w w2"
  using assms
  by (auto simp: sleep_step_eq sleeps_for_def appended_def split: if_splits)

lemma monitor_cycle_appended:
  assumes "monitor_cycle b t c st w1 = (fl, st', w2)" "appended (sleeps_for c) w w1"
  shows "appended (sleeps_for c) w w2"
proof -
  let ?P = "sleeps_for c"
  note ns = not_sleep_sleeps_for
  obtain r1 w3 where f: "fetch_thread_data b t w1 = (r1, w3)" by (cases "fetch_thread_data b t w1")
  have a: "appended ?P w w3" using f assms(2) ns by (rule fetch_appended)
  have n: "appended ?P w w4" if "notify_new_posts b t cur ps w3 = (r2, w4)" for cur ps r2 w4
    using that a ns by (rule notify_new_posts_appended)
  have s: "appended ?P w w5" if "sleep_step c st1 w4 = (fl, st', w5)" "appended ?P w w4" for st1 w4 w5
    using that by (rule sleep_step_appended)
  show ?thesis
    using assms(1) a
    by (auto simp: monitor_cycle_def f Let_def time_time_def ns
             split: if_splits option.splits sum.splits prod.splits
             intro!: appended_print appended_save appended_fields
             dest!: n elim!: s)
qed

lemma monitor_loop_appended:
  assumes "monitor_loop k b t c st w1 = (out, w2)" "appended (sleeps_for c) w w1"
  shows "appended (sleeps_for c) w w2"
  using assms
proof (induction k arbitrary: st w1)
  case 0
  then show ?case by simp
next
  case (Suc k)
  obtain fl st1 w3 where m: "monitor_cycle b t c st w1 = (fl, st1, w3)"
    by (cases "monitor_cycle b t c st w1") auto
  have a: "appended (sleeps_for c) w w3" using m Suc.prems(2) by (rule monitor_cycle_appended)
  show ?case
  proof (cases fl)
    case Continue
    with Suc.prems(1) m have "monitor_loop k b t c st1 w3 = (out, w2)" by simp
    then show ?thesis using a by (rule Suc.IH)
  next
    case Break
    with Suc.prems(1) m a show ?thesis by simp
  next
    case (Raise e)
    with Suc.prems(1) m a show ?thesis by simp
  qed
qed

lemma monitor_thread_appended:
  assumes "monitor_thread b t c k w1 = (out, w2)" "appended (sleeps_for c) w w1"
  shows "appended (sleeps_for c) w w2"
proof (cases "map_of (threads (load_tracking_data w1)) (b @ (py ''_'') @ t)")
  case None
  with assms show ?thesis
    by (auto simp: monitor_thread_def not_sleep_sleeps_for intro!: appended_print)
next
  case (Some info)
  let ?w2 = "print (CheckIntervalMsg c) (print (Monitoring b t (info_title info)) w1)"
  obtain o1 w3 where l: "monitor_loop k b t c (load_tracking_data w1, info) ?w2 = (o1, w3)"
    by (cases "monitor_loop k b t c (load_tracking_data w1, info) ?w2")
  have "appended (sleeps_for c) w ?w2"
    using assms(2) by (auto simp: not_sleep_sleeps_for intro!: appended_print)
  with l have "appended (sleeps_for c) w w3" by (rule monitor_loop_appended)
  with assms(1) Some l show ?thesis
    by (auto simp: monitor_thread_def Let_def not_sleep_sleeps_for split: if_splits
             intro!: appended_print)
qed

lemma add_and_monitor_appended:
  assumes "add_and_monitor b t c k w1 = (out, w2)" "appended (sleeps_for c) w w1"
  shows "appended (sleeps_for c) w w2"
proof -
  obtain r w3 where a: "add_thread b t c w1 = (r, w3)" by (cases "add_thread b t c w1")
  have "appended (sleeps_for c) w w3"
    using a assms(2) not_sleep_sleeps_for by (rule add_thread_appended)
  then show ?thesis
    using assms(1) a
    by (auto simp: add_and_monitor_def split: sum.splits dest: monitor_thread_appended)
qed

lemma except_ValueError_appended:
  assumes "except_ValueError (o1, w1) = (out, w2)" "appended (sleeps_for c) w w1"
  shows "appended (sleeps_for c) w w2"
  using assms
  by (auto simp: except_ValueError_def not_sleep_sleeps_for
           split: outcome.splits py_exception.splits intro!: appended_print)

lemma snd_completed [simp]: "snd (completed r) = snd r"
  by (simp add: completed_def split: sum.splits)

lemma dispatch_appended:
  assumes "dispatch args k w = (out, w')"
  shows "appended (sleeps_for (arg_interval args)) w w'"
proof -
  let ?P = "sleeps_for (arg_interval args)"
  note ns = not_sleep_sleeps_for
  have r: "appended ?P w w" by (rule appended_refl)
  have am: "appended ?P w w2" if "add_and_monitor b t (arg_interval args) k w = (o1, w2)"
    for b t o1 w2 using that r by (rule add_and_monitor_appended)
  have ex: "appended ?P w w2" if "except_ValueError (o1, w1) = (o2, w2)" "appended ?P w w1"
    for o1 w1 o2 w2 using that by (rule except_ValueError_appended)
  have li: "appended ?P w (snd (list_threads w))"
    using list_threads_appended [of w "fst (list_threads w)" "snd (list_threads w)" ?P w] r ns
    by simp
  have rm: "appended ?P w (snd (remove_thread i f w))" for i f
    using remove_thread_appended
      [of i f w "fst (remove_thread i f w)" "snd (remove_thread i f w)" ?P w] r ns
    by simp
  have u: "appended ?P w (snd (except_ValueError x))" if "appended ?P w (snd x)" for x
    using ex [of "fst x" "snd x" "fst (except_ValueError x)" "snd (except_ValueError x)"] that
    by simp
  have v: "appended ?P w (snd (add_and_monitor b t (arg_interval args) k w))" for b t
    using am [of b t "fst (add_and_monitor b t (arg_interval args) k w)"] by simp
  have "appended ?P w (snd (dispatch args k w))"
    unfolding dispatch_def
    by (auto simp: li rm r split: sum.splits prod.splits intro!: u v)
  with assms show ?thesis by simp
qed

lemma main_eq:
  "main args k w =
     (if fst (dispatch args k w) = Returned
      then (Returned, cleanup_old_threads (snd (dispatch args k w)))
      else dispatch args k w)"
  by (simp add: main_def Let_def)

lemma main_appended:
  assumes "main args k w = (out, w')"
  shows "appended (sleeps_for (arg_interval args)) w w'"
proof -
  have d: "appended (sleeps_for (arg_interval args)) w (snd (dispatch args k w))"
    using dispatch_appended [of args k w "fst (dispatch args k w)" "snd (dispatch args k w)"]
    by simp
  then have "appended (sleeps_for (arg_interval args)) w
               (cleanup_old_threads (snd (dispatch args k w)))"
    using not_sleep_sleeps_for by (rule cleanup_old_threads_appended)
  with d assms show ?thesis
    unfolding main_eq by (auto split: if_splits)
qed

lemma sleep_step_Continue:
  assumes "sleep_step c st1 w4 = (Continue, st', w5)"
  shows "w5 = w4\<lparr>trace := trace w4 @ [Sleep c], sleeps := Suc (sleeps w4)\<rparr>"
  using assms by (auto simp: sleep_step_eq split: if_splits)

lemma monitor_cycle_Continue:
  assumes "monitor_cycle b t c st w = (Continue, st', w')"
  shows "\<exists>w4. appended not_sleep w w4
           \<and> w' = w4\<lparr>trace := trace w4 @ [Sleep c], sleeps := Suc (sleeps w4)\<rparr>"
proof -
  obtain r1 w3 where f: "fetch_thread_data b t w = (r1, w3)" by (cases "fetch_thread_data b t w")
  have a: "appended not_sleep w w3" using f appended_refl by (rule fetch_appended)
  have n: "appended not_sleep w w4" if "notify_new_posts b t cur ps w3 = (r2, w4)" for cur ps r2 w4
    using that a by (rule notify_new_posts_appended)
  have s: "\<exists>w4. appended not_sleep w w4
           \<and> w5 = w4\<lparr>trace := trace w4 @ [Sleep c], sleeps := Suc (sleeps w4)\<rparr>"
    if "sleep_step c st1 w4 = (Continue, st', w5)" "appended not_sleep w w4" for st1 w4 w5
    using sleep_step_Continue [OF that(1)] that(2) by blast
  show ?thesis
    using assms a
    by (auto simp: monitor_cycle_def f Let_def time_time_def
             split: if_splits option.splits sum.splits prod.splits
             dest!: n elim!: s
             intro!: appended_print appended_save appended_fields)
qed

section \<open>The polling period\<close>

text \<open>
  C9, as the code has it: the suspensions of an invocation last the interval given to that
  invocation (\<^verbatim>\<open>--interval\<close>, 120 by default), which \<open>main\<close> passes to \<open>monitor_thread\<close>;
  and a cycle after which the loop continues has suspended exactly once, at its end, for
  the interval passed to it. The \<open>check_interval\<close> stored in the record is not read.
\<close>

theorem suspension_lasts_cli_interval:
  "(main args cycles w = (out, w')
      \<longrightarrow> (\<exists>evs. trace w' = trace w @ evs \<and> (\<forall>n. Sleep n \<in> set evs \<longrightarrow> n = arg_interval args)))
   \<and> (monitor_cycle board thread_id check_interval st w1 = (Continue, st', w1')
      \<longrightarrow> (\<exists>evs. trace w1' = trace w1 @ evs @ [Sleep check_interval]
                 \<and> (\<forall>n. Sleep n \<notin> set evs)))"
proof (intro conjI impI)
  assume "main args cycles w = (out, w')"
  then have "appended (sleeps_for (arg_interval args)) w w'" by (rule main_appended)
  then show "\<exists>evs. trace w' = trace w @ evs \<and> (\<forall>n. Sleep n \<in> set evs \<longrightarrow> n = arg_interval args)"
    by (auto simp: appended_def sleeps_for_def list_all_iff)
next
  assume "monitor_cycle board thread_id check_interval st w1 = (Continue, st', w1')"
  from monitor_cycle_Continue [OF this] obtain w4 evs where
    "trace w4 = trace w1 @ evs" "list_all not_sleep evs"
    "w1' = w4\<lparr>trace := trace w4 @ [Sleep check_interval], sleeps := Suc (sleeps w4)\<rparr>"
    by (auto simp: appended_def)
  then have "trace w1' = trace w1 @ evs @ [Sleep check_interval] \<and> (\<forall>n. Sleep n \<notin> set evs)"
    by (auto simp: list_all_iff)
  then show "\<exists>evs. trace w1' = trace w1 @ evs @ [Sleep check_interval]
                 \<and> (\<forall>n. Sleep n \<notin> set evs)" ..
qed

text \<open>
  C9 as stated fails: the record of \<^verbatim>\<open>/g/100\<close> was created with the interval 60, the
  invocation is given 300, and the loop suspends for 300.
\<close>

theorem stored_interval_ignored_counterexample:
  "map_of (threads (load_tracking_data (world0 (Stored example_data) new_posts_then_gone 100000)))
      (py ''g_100'') = Some info_g
   \<and> info_check_interval info_g = 60
   \<and> Sleep 300 \<in> set (trace (snd (main (url_args (py ''https://boards.4chan.org/g/thread/100'') 300)
        (Suc (Suc 0)) (world0 (Stored example_data) new_posts_then_gone 100000))))
   \<and> Sleep 60 \<notin> set (trace (snd (main (url_args (py ''https://boards.4chan.org/g/thread/100'') 300)
        (Suc (Suc 0)) (world0 (Stored example_data) new_posts_then_gone 100000))))"
  by (simp add: eval_defs url_args_def new_posts_then_gone_def three_posts_def
        parse_thread_url_def is_digit_def)

text \<open>The theorem of C9 at that invocation and at its first cycle.\<close>

theorem suspension_lasts_cli_interval_witness:
  "fst (main (url_args (py ''https://boards.4chan.org/g/thread/100'') 300) (Suc (Suc 0))
          (world0 (Stored example_data) new_posts_then_gone 100000)) = Returned
   \<and> (\<exists>evs. trace (snd (main (url_args (py ''https://boards.4chan.org/g/thread/100'') 300)
                  (Suc (Suc 0)) (world0 (Stored example_data) new_posts_then_gone 100000)))
              = evs
            \<and> (\<forall>n. Sleep n \<in> set evs \<longrightarrow> n = 300))
   \<and> fst (monitor_cycle (py ''g'') (py ''100'') 300 (example_data, info_g)
          (world0 (Stored example_data) new_posts_then_gone 100000)) = Continue
   \<and> (\<exists>evs. trace (snd (snd (monitor_cycle (py ''g'') (py ''100'') 300 (example_data, info_g)
                  (world0 (Stored example_data) new_posts_then_gone 100000))))
              = evs @ [Sleep 300]
            \<and> (\<forall>n. Sleep n \<notin> set evs))"
proof -
  let ?w = "world0 (Stored example_data) new_posts_then_gone 100000"
  let ?a = "url_args (py ''https://boards.4chan.org/g/thread/100'') 300"
  let ?m = "main ?a (Suc (Suc 0)) ?w"
  let ?c = "monitor_cycle (py ''g'') (py ''100'') 300 (example_data, info_g) ?w"
  have m: "?m = (fst ?m, snd ?m)" by simp
  have r: "fst ?m = Returned"
    by (simp add: eval_defs url_args_def new_posts_then_gone_def three_posts_def
          parse_thread_url_def is_digit_def)
  have k: "fst ?c = Continue"
    by (simp add: eval_defs new_posts_then_gone_def three_posts_def)
  then have c: "?c = (Continue, fst (snd ?c), snd (snd ?c))"
    by (metis prod.collapse)
  have i: "arg_interval ?a = 300" by (simp add: url_args_def)
  have t: "trace ?w = []" by (simp add: world0_fields)
  from suspension_lasts_cli_interval
    [where args = ?a and cycles = "Suc (Suc 0)" and w = ?w and out = "fst ?m" and w' = "snd ?m"
       and board = "(py ''g'')" and thread_id = "(py ''100'')" and check_interval = 300
       and st = "(example_data, info_g)" and ?w1.0 = ?w and st' = "fst (snd ?c)"
       and w1' = "snd (snd ?c)"]
  have "(\<exists>evs. trace (snd ?m) = trace ?w @ evs \<and> (\<forall>n. Sleep n \<in> set evs \<longrightarrow> n = arg_interval ?a))
      \<and> (\<exists>evs. trace (snd (snd ?c)) = trace ?w @ evs @ [Sleep 300] \<and> (\<forall>n. Sleep n \<notin> set evs))"
    using m c by blast
  then show ?thesis
    unfolding i t using r k by simp
qed

section \<open>The trailing sweep\<close>




section \<open>Deleting tracking id 0\<close>

text \<open>
  C10, as the code has it: \<^verbatim>\<open>--delete 0\<close> is falsy, so no branch of \<open>main\<close> runs and
  \<open>remove_thread\<close> is not called; the invocation is the sweep alone. When no record is
  stale, the file is left as it was and nothing is saved or printed.
\<close>

theorem main_delete_zero:
  assumes "\<not> arg_list args" "arg_delete args = Some 0" "arg_url args = None"
    "arg_manual args = None"
  shows "main args cycles w = (Returned, cleanup_old_threads w)
    \<and> (filter (stale (clock w (ticks w))) (threads (load_tracking_data w)) = []
        \<longrightarrow> tracking_file (snd (main args cycles w)) = tracking_file w
          \<and> trace (snd (main args cycles w)) = trace w)"
proof -
  have "dispatch args cycles w = (Returned, w)"
    using assms by (simp add: dispatch_def)
  then have m: "main args cycles w = (Returned, cleanup_old_threads w)"
    by (simp add: main_eq)
  show ?thesis
    unfolding m by (simp add: cleanup_old_threads_eq)
qed

text \<open>
  C10 as stated fails: with a stale record in the file, the invocation \<^verbatim>\<open>-d 0 -f\<close>
  removes that record and saves.
\<close>

theorem delete_zero_sweeps_counterexample:
  "tracking_file (snd (main (delete_args 0 True) 0 (world0 (Stored example_data) one_post 100000)))
     = Stored \<lparr>threads = [((py ''g_100''), info_g)], next_id = 3\<rparr>
   \<and> trace (snd (main (delete_args 0 True) 0 (world0 (Stored example_data) one_post 100000)))
     = [Save \<lparr>threads = [((py ''g_100''), info_g)], next_id = 3\<rparr>, Print (RemovedInactive 1)]
   \<and> tracking_file (world0 (Stored example_data) one_post 100000)
     = Stored \<lparr>threads = [((py ''g_100''), info_g), ((py ''a_200''), info_a)], next_id = 3\<rparr>"
  by (simp add: eval_defs delete_args_def)

text \<open>The theorem of C10 at a time when no record of the example file is stale.\<close>

theorem main_delete_zero_witness:
  "\<not> arg_list (delete_args 0 False) \<and> arg_delete (delete_args 0 False) = Some 0
   \<and> arg_url (delete_args 0 False) = None \<and> arg_manual (delete_args 0 False) = None
   \<and> filter (stale (clock (world0 (Stored example_data) one_post 50000)
                      (ticks (world0 (Stored example_data) one_post 50000))))
        (threads (load_tracking_data (world0 (Stored example_data) one_post 50000))) = []
   \<and> tracking_file (snd (main (delete_args 0 False) 0 (world0 (Stored example_data) one_post 50000)))
       = Stored example_data
   \<and> trace (snd (main (delete_args 0 False) 0 (world0 (Stored example_data) one_post 50000))) = []"
proof -
  let ?w = "world0 (Stored example_data) one_post 50000"
  have a: "\<not> arg_list (delete_args 0 False)" "arg_delete (delete_args 0 False) = Some 0"
    "arg_url (delete_args 0 False) = None" "arg_manual (delete_args 0 False) = None"
    by (simp_all add: delete_args_def)
  have s: "filter (stale (clock ?w (ticks ?w))) (threads (load_tracking_data ?w)) = []"
    by (simp add: load_world0 world0_fields)
       (simp add: example_data_def stale_def info_g_def info_a_def)
  from main_delete_zero [OF a, of 0 ?w] s
  have "tracking_file (snd (main (delete_args 0 False) 0 ?w)) = tracking_file ?w
      \<and> trace (snd (main (delete_args 0 False) 0 ?w)) = trace ?w"
    by blast
  with a s show ?thesis by (simp add: world0_fields)
qed

section \<open>A fetch that fails\<close>

text \<open>
  C1 fails on the code: \<open>fetch_thread_data\<close> answers a network error like a 404, with
  \<^verbatim>\<open>None\<close>, and the cycle removes the record of \<^verbatim>\<open>/g/100\<close> from the file.
\<close>

theorem monitor_cycle_network_error_removes_record:
  "monitor_cycle (py ''g'') (py ''100'') 300 (example_data, info_g)
     (world0 (Stored example_data) (\<lambda>k. Failure) 100000)
   = (Break,
      (\<lparr>threads = [((py ''a_200''), info_a)], next_id = 3\<rparr>, info_g),
      (world0 (Stored example_data) (\<lambda>k. Failure) 100000)
        \<lparr>tracking_file := Stored \<lparr>threads = [((py ''a_200''), info_a)], next_id = 3\<rparr>,
         trace := [Fetch (py ''https://a.4cdn.org/g/thread/100.json''),
                   Print ErrorFetching,
                   Print (NoLongerExists (py ''g'') (py ''100'')),
                   Save \<lparr>threads = [((py ''a_200''), info_a)], next_id = 3\<rparr>],
         fetches := 1\<rparr>)"
  by (simp add: eval_defs)

text \<open>
  An HTTP error other than 404 is raised again: it leaves the cycle after the fetch, with
  the loop variables and the file untouched.
\<close>

lemma monitor_cycle_http_error:
  assumes "net w (fetches w) = HTTPStatus code" "code \<noteq> 404"
  shows "monitor_cycle board thread_id check_interval st w
    = (Raise (HTTPError code), st,
       emit (Fetch ((py ''https://a.4cdn.org/'') @ board @ (py ''/thread/'') @ thread_id @ (py ''.json'')))
         (w\<lparr>fetches := Suc (fetches w)\<rparr>))"
  using assms by (simp add: monitor_cycle_def fetch_thread_data_def Let_def)

end
